theory Spec2Isabelle
  imports Complex_Main "HOL-Library.Sublist"
begin

section \<open>Python values, strings and exceptions\<close>

text \<open>
  The configuration handed to the engine and the output of a task are Python mappings
  from strings to arbitrary values (\<open>Dict[str, Any]\<close>); the server fills the
  configuration from a JSON body. Values are modelled by the JSON value space.
  A Python float is represented by the rational its decimal literal denotes (rounding is
  not modelled). Strings are lists of 8-bit characters, read as the code points
  U+0000..U+00FF.
\<close>

datatype pyval =
    PNone
  | PBool bool
  | PInt int
  | PFloat rat
  | PStr string
  | PList "pyval list"
  | PDict "(string \<times> pyval) list"

text \<open>The exceptions the modelled code can raise, each with the text of \<open>str(e)\<close>.\<close>

datatype exn =
    KeyError string
  | AttributeError string
  | TypeError string

fun type_name :: "pyval \<Rightarrow> string" where
  "type_name PNone = ''NoneType''"
| "type_name (PBool _) = ''bool''"
| "type_name (PInt _) = ''int''"
| "type_name (PFloat _) = ''float''"
| "type_name (PStr _) = ''str''"
| "type_name (PList _) = ''list''"
| "type_name (PDict _) = ''dict''"

text \<open>\<open>len(v)\<close>: defined on strings, lists and dicts, a TypeError elsewhere.\<close>

fun py_len :: "pyval \<Rightarrow> exn + nat" where
  "py_len (PStr s) = Inr (length s)"
| "py_len (PList xs) = Inr (length xs)"
| "py_len (PDict kvs) = Inr (length kvs)"
| "py_len v = Inl (TypeError (''object of type '' @ [CHR 0x27] @ type_name v @ [CHR 0x27] @ '' has no len()''))"

text \<open>\<open>d.get(k, default)\<close> on a mapping.\<close>

definition dict_get :: "(string \<rightharpoonup> 'v) \<Rightarrow> string \<Rightarrow> 'v \<Rightarrow> 'v" where
  "dict_get d k dflt = (case d k of None \<Rightarrow> dflt | Some v \<Rightarrow> v)"

section \<open>Data model (core/orchestrator/engine.py)\<close>

datatype WorkflowStage =
  IDLE | INGESTING | PLANNING | EXECUTING | VALIDATING | CORRECTING | COMPLETED | FAILED

datatype TaskStatus =
  PENDING | RUNNING | TASK_COMPLETED | TASK_FAILED | CORRECTED

text \<open>
  Time stamps: the k-th reading of \<open>datetime.now()\<close> within an engine is represented
  by the number k; its formatting is not modelled.
\<close>

type_synonym timestamp = nat

record LogEntry =
  timestamp :: timestamp
  level :: string
  message :: string
  metadata :: "(string \<times> pyval) list"

record Task =
  t_id :: string
  step_number :: int
  description :: string
  status :: TaskStatus
  started_at :: "timestamp option"
  completed_at :: "timestamp option"
  error :: "string option"
  correction_applied :: bool

record ValidationResult =
  passed :: bool
  issues :: "string list"
  severity :: string
  vr_task_id :: string

record CorrectionStrategy =
  action :: string
  strategy :: string
  confidence :: rat
  cs_task_id :: string

record Artifact =
  a_name :: string
  a_type :: string
  a_size :: string
  verified :: bool
  path :: "string option"
  content_preview :: "string option"

record WorkflowResult =
  workflow_id :: timestamp
  wf_name :: pyval
  stage :: WorkflowStage
  progress :: rat
  tasks :: "Task list"
  logs :: "LogEntry list"
  artifacts :: "Artifact list"
  validation_failure :: "ValidationResult option"
  correction :: "CorrectionStrategy option"
  created_at :: timestamp
  wf_completed_at :: "timestamp option"

section \<open>Rule engine (core/validation/validator.py)\<close>

type_synonym task_output = "string \<rightharpoonup> pyval"

record ValidationRule =
  rule_name :: string
  rule_description :: string
  rule_severity :: string
  check_function :: "task_output \<Rightarrow> exn + (bool \<times> string list)"

text \<open>
  \<open>Validator.rules\<close> is a dict keyed by rule name; a dict iterates in insertion order,
  and assigning to an existing key keeps the key's position.
\<close>

record Validator =
  rules :: "(string \<times> ValidationRule) list"

fun dict_set :: "('k \<times> 'v) list \<Rightarrow> 'k \<Rightarrow> 'v \<Rightarrow> ('k \<times> 'v) list" where
  "dict_set [] k v = [(k, v)]"
| "dict_set ((k', v') # kvs) k v = (if k' = k then (k, v) # kvs else (k', v') # dict_set kvs k v)"

definition check_citations :: "task_output \<Rightarrow> exn + (bool \<times> string list)" where
  "check_citations out =
     (let citations = dict_get out ''citations'' (PList [])
      in case py_len citations of
           Inl e \<Rightarrow> Inl e
         | Inr n \<Rightarrow> if n = 0 then Inr (False, [''Missing citations'']) else Inr (True, []))"

definition check_completeness :: "task_output \<Rightarrow> exn + (bool \<times> string list)" where
  "check_completeness out =
     (let required_fields = [''result'', ''data''];
          missing = filter (\<lambda>f. out f = None) required_fields
      in if missing \<noteq> [] then Inr (False, map (\<lambda>f. ''Missing required field: '' @ f) missing)
         else Inr (True, []))"

text \<open>The output is a mapping by its type, so the \<open>isinstance(output, dict)\<close> test succeeds.\<close>

definition check_format :: "task_output \<Rightarrow> exn + (bool \<times> string list)" where
  "check_format out = Inr (True, [])"

definition calculate_quality_score :: "task_output \<Rightarrow> exn + (bool \<times> string list)" where
  "calculate_quality_score out =
     (let score = (85 / 100 :: rat)
      in if score < 7 / 10 then Inr (False, [''Quality score too low: 0.85''])
         else Inr (True, []))"

definition load_default_rules :: "(string \<times> ValidationRule) list" where
  "load_default_rules =
    [(''citation_check'',
        \<lparr>rule_name = ''citation_check'',
         rule_description = ''Verify all citations are present and properly formatted'',
         rule_severity = ''medium'', check_function = check_citations\<rparr>),
     (''completeness_check'',
        \<lparr>rule_name = ''completeness_check'',
         rule_description = ''Ensure all required sections are present'',
         rule_severity = ''high'', check_function = check_completeness\<rparr>),
     (''format_check'',
        \<lparr>rule_name = ''format_check'',
         rule_description = ''Validate output format matches requirements'',
         rule_severity = ''low'', check_function = check_format\<rparr>),
     (''quality_score'',
        \<lparr>rule_name = ''quality_score'',
         rule_description = ''Calculate overall output quality score'',
         rule_severity = ''medium'', check_function = calculate_quality_score\<rparr>)]"

definition new_Validator :: Validator where
  "new_Validator = \<lparr>rules = load_default_rules\<rparr>"

definition add_custom_rule :: "Validator \<Rightarrow> ValidationRule \<Rightarrow> Validator" where
  "add_custom_rule v r = v\<lparr>rules := dict_set (rules v) (rule_name r) r\<rparr>"

text \<open>The \<open>if/elif\<close> chain of \<open>Validator.validate\<close> that raises the running severity.\<close>

definition raise_severity :: "string \<Rightarrow> string \<Rightarrow> string" where
  "raise_severity max_severity sev =
     (if sev = ''critical'' then ''critical''
      else if sev = ''high'' \<and> max_severity \<noteq> ''critical'' then ''high''
      else if sev = ''medium'' \<and> max_severity \<notin> set [''critical'', ''high''] then ''medium''
      else max_severity)"

text \<open>The loop over \<open>self.rules.items()\<close>; an exception of a check function ends it.\<close>

fun run_rules :: "ValidationRule list \<Rightarrow> task_output \<Rightarrow> string list \<Rightarrow> string
                    \<Rightarrow> exn + (string list \<times> string)" where
  "run_rules [] out all_issues max_severity = Inr (all_issues, max_severity)"
| "run_rules (r # rs) out all_issues max_severity =
     (case check_function r out of
        Inl e \<Rightarrow> Inl e
      | Inr (ok, iss) \<Rightarrow>
          if \<not> ok then run_rules rs out (all_issues @ iss) (raise_severity max_severity (rule_severity r))
          else run_rules rs out all_issues max_severity)"

definition validate :: "Validator \<Rightarrow> Task \<Rightarrow> task_output \<Rightarrow> exn + ValidationResult" where
  "validate v task out =
     (if step_number task = 3 then
        Inr \<lparr>passed = False,
             issues = [''Missing error handling for edge case: empty citation list''],
             severity = ''medium'', vr_task_id = t_id task\<rparr>
      else case run_rules (map snd (rules v)) out [] ''none'' of
             Inl e \<Rightarrow> Inl e
           | Inr (all_issues, max_severity) \<Rightarrow>
               Inr \<lparr>passed = (length all_issues = 0), issues = all_issues,
                    severity = max_severity, vr_task_id = t_id task\<rparr>)"

subsection \<open>The aggregation policy in the words of the specification\<close>

text \<open>
  A rule's verdict on an output; \<open>rule_fails\<close> and \<open>rule_issues\<close> read a verdict that
  was returned (not raised).
\<close>

definition rule_fails :: "task_output \<Rightarrow> ValidationRule \<Rightarrow> bool" where
  "rule_fails out r = (case check_function r out of Inl e \<Rightarrow> False | Inr (ok, iss) \<Rightarrow> \<not> ok)"

definition rule_issues :: "task_output \<Rightarrow> ValidationRule \<Rightarrow> string list" where
  "rule_issues out r = (case check_function r out of Inl e \<Rightarrow> [] | Inr (ok, iss) \<Rightarrow> iss)"

definition rule_returns :: "task_output \<Rightarrow> ValidationRule \<Rightarrow> bool" where
  "rule_returns out r = (case check_function r out of Inl e \<Rightarrow> False | Inr p \<Rightarrow> True)"

definition failing_rules :: "Validator \<Rightarrow> task_output \<Rightarrow> ValidationRule list" where
  "failing_rules v out = filter (rule_fails out) (map snd (rules v))"

text \<open>The severity order \<open>none < low < medium < high < critical\<close>.\<close>

definition severity_rank :: "string \<Rightarrow> nat" where
  "severity_rank s =
     (if s = ''low'' then 1 else if s = ''medium'' then 2 else if s = ''high'' then 3
      else if s = ''critical'' then 4 else 0)"

definition valid_severity :: "string \<Rightarrow> bool" where
  "valid_severity s = (s \<in> set [''none'', ''low'', ''medium'', ''high'', ''critical''])"

definition max_severity_of :: "string list \<Rightarrow> string" where
  "max_severity_of sevs =
     foldl (\<lambda>m s. if severity_rank m < severity_rank s then s else m) ''none'' sevs"

definition spec_validate :: "Validator \<Rightarrow> Task \<Rightarrow> task_output \<Rightarrow> ValidationResult" where
  "spec_validate v task out =
     \<lparr>passed = (failing_rules v out = []),
      issues = concat (map (rule_issues out) (failing_rules v out)),
      severity = max_severity_of (map rule_severity (failing_rules v out)),
      vr_task_id = t_id task\<rparr>"

section \<open>Python string operations\<close>

text \<open>\<open>str.lower()\<close> on the code points below U+0100.\<close>

definition py_lower_char :: "char \<Rightarrow> char" where
  "py_lower_char c =
     (let n = (of_char c :: nat)
      in if (65 \<le> n \<and> n \<le> 90) \<or> (192 \<le> n \<and> n \<le> 222 \<and> n \<noteq> 215)
         then char_of (n + 32) else c)"

definition py_lower :: "string \<Rightarrow> string" where
  "py_lower s = map py_lower_char s"

text \<open>\<open>p in s\<close> on strings: \<open>p\<close> occurs in \<open>s\<close> as a contiguous substring.\<close>

fun starts_with :: "'a list \<Rightarrow> 'a list \<Rightarrow> bool" where
  "starts_with [] s = True"
| "starts_with (p # ps) [] = False"
| "starts_with (p # ps) (c # cs) = (p = c \<and> starts_with ps cs)"

fun str_in :: "'a list \<Rightarrow> 'a list \<Rightarrow> bool" where
  "str_in p [] = (p = [])"
| "str_in p (c # cs) = (starts_with p (c # cs) \<or> str_in p cs)"

text \<open>Decimal rendering of integers, as \<open>str(n)\<close> and f-strings produce it.\<close>

definition digit_char :: "nat \<Rightarrow> char" where
  "digit_char d = char_of (48 + d)"

fun str_nat :: "nat \<Rightarrow> string" where
  "str_nat n = (if n < 10 then [digit_char n] else str_nat (n div 10) @ [digit_char (n mod 10)])"

declare str_nat.simps [simp del]

definition str_int :: "int \<Rightarrow> string" where
  "str_int i = (if i < 0 then ''-'' @ str_nat (nat (- i)) else str_nat (nat i))"

text \<open>
  \<open>repr\<close> of a string: single quotes unless the string has a single quote and no double
  quote; backslash, the chosen quote, newline, carriage return and tab are escaped with a
  backslash, the other non-printable code points as \<open>\xNN\<close>.
\<close>

definition hex_digit :: "nat \<Rightarrow> char" where
  "hex_digit d = (if d < 10 then char_of (48 + d) else char_of (87 + d))"

definition py_printable :: "char \<Rightarrow> bool" where
  "py_printable c =
     (let n = (of_char c :: nat)
      in (32 \<le> n \<and> n \<le> 126) \<or> (161 \<le> n \<and> n \<noteq> 173))"

definition repr_char :: "char \<Rightarrow> char \<Rightarrow> string" where
  "repr_char q c =
     (if c = CHR 0x5C then [CHR 0x5C, CHR 0x5C]
      else if c = q then [CHR 0x5C, q]
      else if c = CHR 0x0A then [CHR 0x5C, CHR ''n'']
      else if c = CHR 0x0D then [CHR 0x5C, CHR ''r'']
      else if c = CHR 0x09 then [CHR 0x5C, CHR ''t'']
      else if \<not> py_printable c then
        [CHR 0x5C, CHR ''x'', hex_digit ((of_char c :: nat) div 16), hex_digit ((of_char c :: nat) mod 16)]
      else [c])"

definition repr_str :: "string \<Rightarrow> string" where
  "repr_str s =
     (let q = (if CHR 0x27 \<in> set s \<and> CHR 0x22 \<notin> set s then CHR 0x22 else CHR 0x27)
      in [q] @ concat (map (repr_char q) s) @ [q])"

fun join :: "string \<Rightarrow> string list \<Rightarrow> string" where
  "join sep [] = []"
| "join sep [x] = x"
| "join sep (x # y # ys) = x @ sep @ join sep (y # ys)"

text \<open>\<open>str(xs)\<close> of a list of strings.\<close>

definition str_list :: "string list \<Rightarrow> string" where
  "str_list xs = ''['' @ join '', '' (map repr_str xs) @ '']''"

text \<open>
  \<open>str(v)\<close> of a value, as an f-string inserts it. The rendering of floats and of nested
  lists and dicts is CPython's and is taken as the parameter \<open>render\<close>.
\<close>

fun format_value :: "(pyval \<Rightarrow> string) \<Rightarrow> pyval \<Rightarrow> string" where
  "format_value render (PStr s) = s"
| "format_value render PNone = ''None''"
| "format_value render (PBool b) = (if b then ''True'' else ''False'')"
| "format_value render (PInt i) = str_int i"
| "format_value render v = render v"

fun str_exn :: "exn \<Rightarrow> string" where
  "str_exn (KeyError k) = repr_str k"
| "str_exn (AttributeError m) = m"
| "str_exn (TypeError m) = m"

definition no_attribute :: "pyval \<Rightarrow> string \<Rightarrow> exn" where
  "no_attribute v attr =
     AttributeError ([CHR 0x27] @ type_name v @ [CHR 0x27] @ '' object has no attribute ''
                     @ [CHR 0x27] @ attr @ [CHR 0x27])"

fun enumerate_from :: "int \<Rightarrow> 'a list \<Rightarrow> (int \<times> 'a) list" where
  "enumerate_from i [] = []"
| "enumerate_from i (x # xs) = (i, x) # enumerate_from (i + 1) xs"

section \<open>Strategy selector and corrector (core/correction)\<close>

datatype CorrectionStrategies = CorrectionStrategies

record Corrector =
  strategies :: CorrectionStrategies

definition new_Corrector :: Corrector where
  "new_Corrector = \<lparr>strategies = CorrectionStrategies\<rparr>"

definition select_strategy :: "CorrectionStrategies \<Rightarrow> Task \<Rightarrow> ValidationResult \<Rightarrow> string" where
  "select_strategy self task validation =
     (if str_in ''edge case'' (py_lower (str_list (issues validation))) then ''inject_defensive_code''
      else if str_in ''timeout'' (py_lower (str_list (issues validation))) then ''retry_with_modified_input''
      else ''use_alternative_method'')"

definition correct :: "Corrector \<Rightarrow> Task \<Rightarrow> ValidationResult \<Rightarrow> CorrectionStrategy" where
  "correct self task validation =
     (let strategy_name = select_strategy (strategies self) task validation
      in \<lparr>action = ''Apply '' @ strategy_name @ '' to fix validation issues'',
          strategy = strategy_name, confidence = 95 / 100, cs_task_id = t_id task\<rparr>)"

section \<open>Workflow engine (core/orchestrator/engine.py)\<close>

text \<open>
  The engine is the mutable object the methods share. \<open>clock\<close> counts the readings of
  \<open>datetime.now()\<close>. \<open>trace\<close> is the history of the run in program order: every
  assignment to the run's stage or progress, every assignment to a task's status and every
  appended log entry. No method reads it. The API key, the Gemini client and the engine's
  own configuration are never used by the methods below and are left out; so are the
  calls of \<open>asyncio.sleep\<close> and the copies of the log sent to the \<open>logging\<close> module.
\<close>

datatype event =
    StageSet WorkflowStage
  | ProgressSet rat
  | StatusSet string TaskStatus
  | Logged LogEntry

record WorkflowEngine =
  validator :: "Validator option"
  corrector :: "Corrector option"
  current_workflow :: "WorkflowResult option"
  clock :: nat
  trace :: "event list"

text \<open>
  \<open>__init__\<close> tries to import the core modules. \<open>core/correction/corrector.py\<close> holds its
  text in a string constant and defines no class \<open>Corrector\<close>, so the import raises
  ImportError before the validator is assigned, and the \<open>except\<close> branch sets the
  validator and the corrector to \<open>None\<close>.
\<close>

definition new_WorkflowEngine :: WorkflowEngine where
  "new_WorkflowEngine =
     \<lparr>validator = None, corrector = None, current_workflow = None, clock = 0, trace = []\<rparr>"

definition now :: "WorkflowEngine \<Rightarrow> timestamp \<times> WorkflowEngine" where
  "now eng = (clock eng, eng\<lparr>clock := clock eng + 1\<rparr>)"

text \<open>Assignments to fields of \<open>self.current_workflow\<close>, made once the run exists.\<close>

definition update_workflow :: "(WorkflowResult \<Rightarrow> WorkflowResult) \<Rightarrow> WorkflowEngine \<Rightarrow> WorkflowEngine" where
  "update_workflow f eng = eng\<lparr>current_workflow := map_option f (current_workflow eng)\<rparr>"

definition set_stage :: "WorkflowStage \<Rightarrow> WorkflowEngine \<Rightarrow> WorkflowEngine" where
  "set_stage s eng = (update_workflow (\<lambda>w. w\<lparr>stage := s\<rparr>) eng)\<lparr>trace := trace eng @ [StageSet s]\<rparr>"

definition set_progress :: "rat \<Rightarrow> WorkflowEngine \<Rightarrow> WorkflowEngine" where
  "set_progress p eng = (update_workflow (\<lambda>w. w\<lparr>progress := p\<rparr>) eng)\<lparr>trace := trace eng @ [ProgressSet p]\<rparr>"

definition set_status :: "TaskStatus \<Rightarrow> Task \<Rightarrow> WorkflowEngine \<Rightarrow> Task \<times> WorkflowEngine" where
  "set_status st task eng = (task\<lparr>status := st\<rparr>, eng\<lparr>trace := trace eng @ [StatusSet (t_id task) st]\<rparr>)"

text \<open>
  The Task objects of a run are shared between the list \<open>generate_plan\<close> returns and
  \<open>current_workflow.tasks\<close>. A method that mutates a task returns the new task, and
  \<open>store_task\<close> puts it back at its position in the run's list.
\<close>

definition store_task :: "nat \<Rightarrow> Task \<Rightarrow> WorkflowEngine \<Rightarrow> WorkflowEngine" where
  "store_task i task eng = update_workflow (\<lambda>w. w\<lparr>tasks := (tasks w)[i := task]\<rparr>) eng"

definition add_log :: "string \<Rightarrow> string \<Rightarrow> (string \<times> pyval) list \<Rightarrow> WorkflowEngine \<Rightarrow> WorkflowEngine" where
  "add_log lvl msg meta eng =
     (case current_workflow eng of
        None \<Rightarrow> eng
      | Some w \<Rightarrow>
          (let (t, eng1) = now eng;
               entry = \<lparr>timestamp = t, level = lvl, message = msg, metadata = meta\<rparr>
           in eng1\<lparr>current_workflow := Some (w\<lparr>logs := logs w @ [entry]\<rparr>),
                   trace := trace eng1 @ [Logged entry]\<rparr>))"

type_synonym config = "string \<rightharpoonup> pyval"

text \<open>The texts of the log messages (the f-strings and literals passed to \<open>add_log\<close>).\<close>

definition msg_analyzing :: string where
  "msg_analyzing = ''Gemini 3 analyzing task requirements...''"

definition msg_generated :: "nat \<Rightarrow> string" where
  "msg_generated n = ''Generated '' @ str_nat n @ ''-step workflow plan''"

definition msg_executing :: "int \<Rightarrow> string \<Rightarrow> string" where
  "msg_executing step desc = ''Executing step '' @ str_int step @ '': '' @ desc"

definition msg_validating :: "int \<Rightarrow> string" where
  "msg_validating step = ''Validating step '' @ str_int step @ '' output...''"

definition msg_validation_failed :: "string \<Rightarrow> string" where
  "msg_validation_failed issue = ''Validation FAILED: '' @ issue"

definition msg_validation_passed :: "int \<Rightarrow> string" where
  "msg_validation_passed step = ''Step '' @ str_int step @ '' validation passed''"

definition msg_initiating :: string where
  "msg_initiating = ''Initiating autonomous self-correction...''"

definition msg_strategy :: "string \<Rightarrow> string" where
  "msg_strategy act = ''Correction strategy: '' @ act"

definition msg_reexecuting :: string where
  "msg_reexecuting = ''Re-executing with correction...''"

definition msg_passed_after_correction :: string where
  "msg_passed_after_correction = ''Validation PASSED after correction''"

definition msg_generating_artifacts :: string where
  "msg_generating_artifacts = ''Generating verified artifacts...''"

definition msg_artifact :: "string \<Rightarrow> string" where
  "msg_artifact nm = ''Generated artifact: '' @ nm"

definition msg_starting :: "string \<Rightarrow> string" where
  "msg_starting nm = ''Starting workflow: '' @ nm"

definition msg_ingesting :: "nat \<Rightarrow> string" where
  "msg_ingesting n = ''Ingesting '' @ str_nat n @ '' input sources...''"

definition msg_ingested :: "string \<Rightarrow> string \<Rightarrow> string" where
  "msg_ingested input_type input_name = ''Ingested '' @ input_type @ '': '' @ input_name"

definition msg_completed :: string where
  "msg_completed = ''Workflow completed successfully''"

definition msg_failed :: "string \<Rightarrow> string" where
  "msg_failed err = ''Workflow failed: '' @ err"

text \<open>The issue and the error text of the step that fails by construction.\<close>

definition step3_issue :: string where
  "step3_issue = ''Missing error handling for edge case: empty citation list''"

definition step3_error :: string where
  "step3_error = ''Edge case not handled''"

definition fallback_action :: string where
  "fallback_action = ''Add null-check and default handling for citation lists''"


definition research_plan :: "string list" where
  "research_plan =
     [''Parse and extract content from all input sources'',
      ''Identify key themes and patterns using NLP analysis'',
      ''Cross-reference findings across all sources'',
      ''Generate comprehensive synthesis report with citations'',
      ''Validate output completeness and citation accuracy'']"

definition code_plan :: "string list" where
  "code_plan =
     [''Analyze code structure and dependencies'',
      ''Detect code smells and anti-patterns'',
      ''Evaluate security vulnerabilities'',
      ''Generate improvement recommendations'',
      ''Validate analysis completeness'']"

definition default_plan :: "string list" where
  "default_plan =
     [''Process and normalize input data'',
      ''Apply analysis algorithms'',
      ''Generate insights and findings'',
      ''Create output artifacts'',
      ''Validate results quality'']"

definition plan_steps :: "string \<Rightarrow> string list" where
  "plan_steps task_type =
     (if str_in ''research'' (py_lower task_type) \<or> str_in ''synthesis'' (py_lower task_type)
      then research_plan
      else if str_in ''code'' (py_lower task_type) \<or> str_in ''analysis'' (py_lower task_type)
      then code_plan
      else default_plan)"

definition new_Task :: "int \<times> string \<Rightarrow> Task" where
  "new_Task p =
     \<lparr>t_id = ''task_'' @ str_int (fst p), step_number = fst p, description = snd p,
      status = PENDING, started_at = None, completed_at = None, error = None,
      correction_applied = False\<rparr>"

definition generate_plan :: "WorkflowEngine \<Rightarrow> config \<Rightarrow> (exn + Task list) \<times> WorkflowEngine" where
  "generate_plan eng cfg =
     (let eng1 = add_log ''info'' msg_analyzing [] eng;
          inputs = dict_get cfg ''inputs'' (PList []);
          task_type = dict_get cfg ''name'' (PStr ''workflow'')
      in case task_type of
           PStr s \<Rightarrow>
             (let ts = map new_Task (enumerate_from 1 (plan_steps s))
              in case py_len inputs of
                   Inl e \<Rightarrow> (Inl e, eng1)
                 | Inr n \<Rightarrow>
                     (Inr ts,
                      add_log ''success''
                        (msg_generated (length ts))
                        [(''task_count'', PInt (int (length ts))), (''input_count'', PInt (int n))]
                        eng1))
         | v \<Rightarrow> (Inl (no_attribute v ''lower''), eng1))"

definition execute_task :: "WorkflowEngine \<Rightarrow> Task \<Rightarrow> pyval \<Rightarrow> task_output \<times> Task \<times> WorkflowEngine" where
  "execute_task eng task inputs =
     (let (task1, eng1) = set_status RUNNING task eng;
          (t, eng2) = now eng1;
          task2 = task1\<lparr>started_at := Some t\<rparr>;
          eng3 = add_log ''info''
                   (msg_executing (step_number task2) (description task2)) [] eng2
      in if step_number task2 = 3 then
           (let (task3, eng4) = set_status TASK_FAILED task2 eng3;
                task4 = task3\<lparr>error := Some step3_error\<rparr>
            in ([''success'' \<mapsto> PBool False, ''error'' \<mapsto> PStr step3_error], task4, eng4))
         else
           (let (task3, eng4) = set_status TASK_COMPLETED task2 eng3;
                (t', eng5) = now eng4;
                task4 = task3\<lparr>completed_at := Some t'\<rparr>
            in ([''task_id'' \<mapsto> PStr (t_id task4),
                 ''result'' \<mapsto> PStr (''Completed: '' @ description task4),
                 ''data'' \<mapsto> PDict [(''processed'', PBool True)]], task4, eng5)))"

definition validate_output :: "WorkflowEngine \<Rightarrow> Task \<Rightarrow> task_output \<Rightarrow> (exn + ValidationResult) \<times> WorkflowEngine" where
  "validate_output eng task out =
     (let eng1 = add_log ''info'' (msg_validating (step_number task)) [] eng
      in case validator eng1 of
           Some v \<Rightarrow> (validate v task out, eng1)
         | None \<Rightarrow>
             if step_number task = 3 then
               (let result = \<lparr>passed = False,
                              issues = [step3_issue],
                              severity = ''medium'', vr_task_id = t_id task\<rparr>
                in (Inr result,
                    add_log ''error''
                      (msg_validation_failed step3_issue) [] eng1))
             else
               (let result = \<lparr>passed = True, issues = [], severity = ''none'', vr_task_id = t_id task\<rparr>
                in (Inr result,
                    add_log ''success''
                      (msg_validation_passed (step_number task)) [] eng1)))"

definition apply_correction :: "WorkflowEngine \<Rightarrow> Task \<Rightarrow> ValidationResult \<Rightarrow> CorrectionStrategy \<times> Task \<times> WorkflowEngine" where
  "apply_correction eng task validation =
     (let eng1 = add_log ''warning'' msg_initiating [] eng
      in case corrector eng1 of
           Some c \<Rightarrow> (correct c task validation, task, eng1)
         | None \<Rightarrow>
             (let fix = \<lparr>action = fallback_action,
                         strategy = ''inject_defensive_code'', confidence = 95 / 100,
                         cs_task_id = t_id task\<rparr>;
                  eng2 = add_log ''warning'' (msg_strategy (action fix))
                           [(''strategy'', PStr (strategy fix)), (''confidence'', PFloat (confidence fix))] eng1;
                  eng3 = add_log ''info'' msg_reexecuting [] eng2;
                  (task1, eng4) = set_status CORRECTED task eng3;
                  task2 = task1\<lparr>correction_applied := True\<rparr>;
                  (t, eng5) = now eng4;
                  task3 = task2\<lparr>completed_at := Some t\<rparr>;
                  eng6 = add_log ''success'' msg_passed_after_correction [] eng5
              in (fix, task3, eng6)))"

definition final_artifacts :: "Artifact list" where
  "final_artifacts =
     [\<lparr>a_name = ''research_synthesis_report.pdf'', a_type = ''document'', a_size = ''2.4 MB'',
       verified = True, path = None,
       content_preview = Some (''# Research Synthesis Report'' @ [CHR 0x0A, CHR 0x0A]
                               @ ''Complete analysis with citations...'')\<rparr>,
      \<lparr>a_name = ''key_findings.json'', a_type = ''data'', a_size = ''156 KB'',
       verified = True, path = None,
       content_preview = Some (''{'' @ [CHR 0x22] @ ''themes'' @ [CHR 0x22] @ '': [''
                               @ [CHR 0x22] @ ''AI'' @ [CHR 0x22] @ '', '' @ [CHR 0x22] @ ''ML'' @ [CHR 0x22]
                               @ ''], '' @ [CHR 0x22] @ ''insights'' @ [CHR 0x22] @ '': [...]}'')\<rparr>,
      \<lparr>a_name = ''execution_log.txt'', a_type = ''log'', a_size = ''45 KB'',
       verified = True, path = None,
       content_preview = Some (''[00:00:00] Workflow started'' @ [CHR 0x0A]
                               @ ''[00:00:01] Planning phase...'')\<rparr>]"

fun log_artifacts :: "Artifact list \<Rightarrow> WorkflowEngine \<Rightarrow> WorkflowEngine" where
  "log_artifacts [] eng = eng"
| "log_artifacts (a # as) eng =
     log_artifacts as
       (add_log ''success'' (msg_artifact (a_name a))
          [(''type'', PStr (a_type a)), (''size'', PStr (a_size a))] eng)"

definition generate_artifacts :: "WorkflowEngine \<Rightarrow> Artifact list \<times> WorkflowEngine" where
  "generate_artifacts eng =
     (let eng1 = add_log ''info'' msg_generating_artifacts [] eng
      in (final_artifacts, log_artifacts final_artifacts eng1))"

text \<open>
  Iterating over a value that has a length: a list yields its elements, a string its
  characters, a dict its keys.
\<close>

fun py_iter :: "pyval \<Rightarrow> pyval list" where
  "py_iter (PList xs) = xs"
| "py_iter (PStr s) = map (\<lambda>c. PStr [c]) s"
| "py_iter (PDict kvs) = map (\<lambda>kv. PStr (fst kv)) kvs"
| "py_iter v = []"

text \<open>\<open>inp.get(k, default)\<close>: only a dict has the method.\<close>

fun py_get :: "pyval \<Rightarrow> string \<Rightarrow> pyval \<Rightarrow> exn + pyval" where
  "py_get (PDict kvs) k dflt = Inr (case map_of kvs k of None \<Rightarrow> dflt | Some v \<Rightarrow> v)"
| "py_get v k dflt = Inl (no_attribute v ''get'')"

text \<open>The loop \<open>for inp in inputs\<close> of the ingestion stage.\<close>

fun ingest_inputs :: "(pyval \<Rightarrow> string) \<Rightarrow> pyval list \<Rightarrow> WorkflowEngine \<Rightarrow> exn option \<times> WorkflowEngine" where
  "ingest_inputs render [] eng = (None, eng)"
| "ingest_inputs render (inp # rest) eng =
     (case py_get inp ''type'' (PStr ''unknown'') of
        Inl e \<Rightarrow> (Some e, eng)
      | Inr input_type \<Rightarrow>
          (case py_get inp ''name'' (PStr ''unknown'') of
             Inl e \<Rightarrow> (Some e, eng)
           | Inr input_name \<Rightarrow>
               ingest_inputs render rest
                 (add_log ''success''
                    (msg_ingested (format_value render input_type) (format_value render input_name))
                    [] eng)))"

text \<open>The body of the loop \<open>for i, task in enumerate(tasks)\<close>.\<close>

definition process_task :: "nat \<Rightarrow> pyval \<Rightarrow> nat \<times> Task \<Rightarrow> WorkflowEngine \<Rightarrow> exn option \<times> WorkflowEngine" where
  "process_task n_tasks inputs p eng =
     (let i = fst p; task = snd p;
          (out, task1, eng1) = execute_task eng task inputs;
          eng2 = set_stage VALIDATING (store_task i task1 eng1)
      in case validate_output eng2 task1 out of
           (Inl e, eng3) \<Rightarrow> (Some e, eng3)
         | (Inr validation, eng3) \<Rightarrow>
             (let eng7 =
                (if \<not> passed validation then
                   (let eng4 = update_workflow (\<lambda>w. w\<lparr>validation_failure := Some validation\<rparr>)
                                 (set_stage CORRECTING eng3);
                        (fix, task2, eng5) = apply_correction eng4 task1 validation
                    in update_workflow (\<lambda>w. w\<lparr>validation_failure := None\<rparr>)
                         (update_workflow (\<lambda>w. w\<lparr>correction := Some fix\<rparr>) (store_task i task2 eng5)))
                 else eng3)
              in (None,
                  set_progress (3 / 10 + (6 / 10 * (of_nat i + 1) / of_nat n_tasks))
                    (set_stage EXECUTING eng7))))"

fun task_loop :: "nat \<Rightarrow> pyval \<Rightarrow> (nat \<times> Task) list \<Rightarrow> WorkflowEngine \<Rightarrow> exn option \<times> WorkflowEngine" where
  "task_loop n_tasks inputs [] eng = (None, eng)"
| "task_loop n_tasks inputs (p # ps) eng =
     (case process_task n_tasks inputs p eng of
        (Some e, eng1) \<Rightarrow> (Some e, eng1)
      | (None, eng1) \<Rightarrow> task_loop n_tasks inputs ps eng1)"

text \<open>The body of the \<open>try\<close> block; \<open>Some e\<close> is the exception that leaves it.\<close>

definition workflow_body :: "(pyval \<Rightarrow> string) \<Rightarrow> config \<Rightarrow> WorkflowEngine \<Rightarrow> exn option \<times> WorkflowEngine" where
  "workflow_body render cfg eng =
     (let eng1 = set_stage INGESTING eng
      in case cfg ''name'' of
           None \<Rightarrow> (Some (KeyError ''name''), eng1)
         | Some nm \<Rightarrow>
             (let eng2 = add_log ''info'' (msg_starting (format_value render nm)) [] eng1;
                  inputs = dict_get cfg ''inputs'' (PList [])
              in case py_len inputs of
                   Inl e \<Rightarrow> (Some e, eng2)
                 | Inr n \<Rightarrow>
                     (let eng3 = add_log ''info'' (msg_ingesting n) [] eng2
                      in case ingest_inputs render (py_iter inputs) eng3 of
                           (Some e, eng4) \<Rightarrow> (Some e, eng4)
                         | (None, eng4) \<Rightarrow>
                             (let eng5 = set_stage PLANNING (set_progress (2 / 10) eng4)
                              in case generate_plan eng5 cfg of
                                   (Inl e, eng6) \<Rightarrow> (Some e, eng6)
                                 | (Inr ts, eng6) \<Rightarrow>
                                     (let eng7 = set_stage EXECUTING
                                                   (set_progress (3 / 10)
                                                      (update_workflow (\<lambda>w. w\<lparr>tasks := ts\<rparr>) eng6))
                                      in case task_loop (length ts) inputs (enumerate 0 ts) eng7 of
                                           (Some e, eng8) \<Rightarrow> (Some e, eng8)
                                         | (None, eng8) \<Rightarrow>
                                             (let eng9 = set_progress (9 / 10) (set_stage COMPLETED eng8);
                                                  (arts, eng10) = generate_artifacts eng9;
                                                  eng11 = set_progress 1
                                                            (update_workflow (\<lambda>w. w\<lparr>artifacts := arts\<rparr>) eng10);
                                                  (t, eng12) = now eng11;
                                                  eng13 = update_workflow (\<lambda>w. w\<lparr>wf_completed_at := Some t\<rparr>) eng12
                                              in (None,
                                                  add_log ''success'' msg_completed
                                                    [(''total_tasks'', PInt (int (length ts))),
                                                     (''artifacts'', PInt (int (length arts)))]
                                                    eng13)))))))"

definition execute_workflow :: "(pyval \<Rightarrow> string) \<Rightarrow> WorkflowEngine \<Rightarrow> config
                                 \<Rightarrow> (exn + WorkflowResult option) \<times> WorkflowEngine" where
  "execute_workflow render eng cfg =
     (let (wid, eng1) = now eng;
          (created, eng2) = now eng1;
          eng3 = eng2\<lparr>current_workflow :=
                        Some \<lparr>workflow_id = wid,
                              wf_name = dict_get cfg ''name'' (PStr ''Unnamed Workflow''),
                              stage = IDLE, progress = 0, tasks = [], logs = [], artifacts = [],
                              validation_failure = None, correction = None,
                              created_at = created, wf_completed_at = None\<rparr>,
                      trace := []\<rparr>
      in case workflow_body render cfg eng3 of
           (Some e, eng4) \<Rightarrow>
             (Inl e, add_log ''error'' (msg_failed (str_exn e)) [] (set_stage FAILED eng4))
         | (None, eng4) \<Rightarrow> (Inr (current_workflow eng4), eng4))"

section \<open>Sample inputs and auxiliary notions used in the statements\<close>

definition sample_task :: "int \<Rightarrow> Task" where
  "sample_task n =
     \<lparr>t_id = ''task_x'', step_number = n, description = ''d'', status = TASK_COMPLETED,
      started_at = None, completed_at = None, error = None, correction_applied = False\<rparr>"

text \<open>An output on which each of the four default rules passes.\<close>

definition passing_output :: task_output where
  "passing_output =
     [''citations'' \<mapsto> PList [PStr ''Vaswani 2017''], ''result'' \<mapsto> PStr ''done'',
      ''data'' \<mapsto> PDict [(''processed'', PBool True)]]"

text \<open>A custom rule of severity \<open>low\<close> that always fails.\<close>

definition low_rule :: ValidationRule where
  "low_rule =
     \<lparr>rule_name = ''style'', rule_description = ''style'', rule_severity = ''low'',
      check_function = (\<lambda>out. Inr (False, [''bad style'']))\<rparr>"

text \<open>
  The running severity of the code and the maximum of the specification agree up to
  severity \<open>low\<close>, which the code never assigns.
\<close>

definition sev_related :: "string \<Rightarrow> string \<Rightarrow> bool" where
  "sev_related m m' \<longleftrightarrow> valid_severity m \<and> valid_severity m' \<and> m \<noteq> ''low'' \<and>
     severity_rank m = (if severity_rank m' = 1 then 0 else severity_rank m')"

text \<open>Projections of the trace: the successive values written to one variable.\<close>

fun stage_of :: "event \<Rightarrow> WorkflowStage list" where
  "stage_of (StageSet s) = [s]"
| "stage_of e = []"

fun progress_of :: "event \<Rightarrow> rat list" where
  "progress_of (ProgressSet p) = [p]"
| "progress_of e = []"

fun status_of :: "string \<Rightarrow> event \<Rightarrow> TaskStatus list" where
  "status_of tid (StatusSet tid' st) = (if tid' = tid then [st] else [])"
| "status_of tid e = []"

fun log_of :: "event \<Rightarrow> LogEntry list" where
  "log_of (Logged entry) = [entry]"
| "log_of e = []"

definition stage_writes :: "event list \<Rightarrow> WorkflowStage list" where
  "stage_writes tr = concat (map stage_of tr)"

definition progress_writes :: "event list \<Rightarrow> rat list" where
  "progress_writes tr = concat (map progress_of tr)"

definition status_writes :: "string \<Rightarrow> event list \<Rightarrow> TaskStatus list" where
  "status_writes tid tr = concat (map (status_of tid) tr)"

definition log_writes :: "event list \<Rightarrow> LogEntry list" where
  "log_writes tr = concat (map log_of tr)"

text \<open>Well-typed configurations: the name is text, the inputs have a length.\<close>

definition name_ok :: "config \<Rightarrow> bool" where
  "name_ok cfg = (case dict_get cfg ''name'' (PStr ''workflow'') of PStr s \<Rightarrow> True | v \<Rightarrow> False)"

definition inputs_sized :: "config \<Rightarrow> bool" where
  "inputs_sized cfg = (case py_len (dict_get cfg ''inputs'' (PList [])) of Inl e \<Rightarrow> False | Inr n \<Rightarrow> True)"

definition task_type_of :: "config \<Rightarrow> string" where
  "task_type_of cfg = (case dict_get cfg ''name'' (PStr ''workflow'') of PStr s \<Rightarrow> s | v \<Rightarrow> [])"

fun is_dict :: "pyval \<Rightarrow> bool" where
  "is_dict (PDict kvs) = True"
| "is_dict v = False"

text \<open>
  Configurations that meet the preconditions of a run: a textual name, and inputs that
  have a length and consist of descriptors (dicts).
\<close>

definition config_ok :: "config \<Rightarrow> bool" where
  "config_ok cfg =
     ((case cfg ''name'' of Some (PStr s) \<Rightarrow> True | v \<Rightarrow> False)
      \<and> inputs_sized cfg
      \<and> list_all is_dict (py_iter (dict_get cfg ''inputs'' (PList []))))"

text \<open>
  The engine \<open>__init__\<close> builds, with neither validator nor corrector, and the engine whose
  validator and corrector are the objects \<open>Validator()\<close> and \<open>Corrector()\<close> of the core
  modules; each at any reading of the clock and after any earlier run.
\<close>

definition standard_engine :: "WorkflowEngine \<Rightarrow> bool" where
  "standard_engine eng =
     ((validator eng = None \<and> corrector eng = None)
      \<or> (validator eng = Some new_Validator \<and> corrector eng = Some new_Corrector))"

text \<open>The log entries the ingestion loop appends, when it starts at clock reading \<open>k\<close>.\<close>

fun ingest_log :: "(pyval \<Rightarrow> string) \<Rightarrow> pyval list \<Rightarrow> nat \<Rightarrow> LogEntry list" where
  "ingest_log render [] k = []"
| "ingest_log render (PDict kvs # rest) k =
     \<lparr>timestamp = k, level = ''success'',
      message = msg_ingested
        (format_value render (case map_of kvs ''type'' of None \<Rightarrow> PStr ''unknown'' | Some v \<Rightarrow> v))
        (format_value render (case map_of kvs ''name'' of None \<Rightarrow> PStr ''unknown'' | Some v \<Rightarrow> v)),
      metadata = []\<rparr> # ingest_log render rest (k + 1)"
| "ingest_log render (v # rest) k = []"

text \<open>Sample configurations and runs.\<close>

definition demo_config :: config where
  "demo_config =
     [''name'' \<mapsto> PStr ''demo'',
      ''inputs'' \<mapsto> PList [PDict [(''type'', PStr ''pdf''), (''name'', PStr ''a.pdf'')]]]"

definition no_render :: "pyval \<Rightarrow> string" where
  "no_render v = ''?''"

text \<open>The progress written after the task at position \<open>i\<close> of \<open>n\<close> tasks.\<close>

definition task_progress :: "nat \<Rightarrow> nat \<Rightarrow> rat" where
  "task_progress n i = 3 / 10 + (6 / 10 * (of_nat i + 1) / of_nat n)"

text \<open>
  Matching stage transitions with log entries: scanning the trace from its end,
  \<open>cover_step\<close> counts the log entries not yet assigned, and a stage transition takes one
  of them. The result is \<open>None\<close> when some transition finds no log entry of its own
  among the entries written after it.
\<close>

fun cover_step :: "event \<Rightarrow> nat option \<Rightarrow> nat option" where
  "cover_step (Logged entry) c = map_option Suc c"
| "cover_step (StageSet s) c = (case c of None \<Rightarrow> None | Some 0 \<Rightarrow> None | Some (Suc k) \<Rightarrow> Some k)"
| "cover_step e c = c"

definition log_cover :: "event list \<Rightarrow> nat option" where
  "log_cover tr = foldr cover_step tr (Some 0)"

text \<open>
  Stage transitions without a log entry. \<open>followed_by\<close> reads a trace up to its first log
  entry or stage write: \<open>None\<close> when a log entry comes first, \<open>Some (Some s)\<close> when the
  stage \<open>s\<close> is written first, \<open>Some None\<close> when the trace ends before either.
  \<open>unlogged\<close> lists the stage writes that no log entry follows before the next stage
  write, each with the stage written next.
\<close>

fun followed_by :: "event list \<Rightarrow> WorkflowStage option option" where
  "followed_by [] = Some None"
| "followed_by (Logged entry # tr) = None"
| "followed_by (StageSet s # tr) = Some (Some s)"
| "followed_by (e # tr) = followed_by tr"

fun unlogged :: "event list \<Rightarrow> (WorkflowStage \<times> WorkflowStage option) list" where
  "unlogged [] = []"
| "unlogged (StageSet s # tr) =
     (case followed_by tr of None \<Rightarrow> [] | Some nxt \<Rightarrow> [(s, nxt)]) @ unlogged tr"
| "unlogged (e # tr) = unlogged tr"

text \<open>What a run leaves behind, read off the result and the engine.\<close>

record run_report =
  raised :: "exn option"
  returned_current :: bool
  final_stage :: "WorkflowStage option"
  final_progress :: "rat option"
  final_statuses :: "TaskStatus list"
  final_strategy :: "string option"
  failure_pending :: bool
  last_log :: "(string \<times> string) option"
  log_count :: nat
  logs_traced :: bool
  stages :: "WorkflowStage list"
  progresses :: "rat list"
  status_histories :: "TaskStatus list list"
  cover :: "nat option"
  alerts :: "(string \<times> string) list"
  unlogged_stages :: "(WorkflowStage \<times> WorkflowStage option) list"

text \<open>The log entries at level \<open>error\<close> or \<open>warning\<close>, as level and message.\<close>

definition alert_of :: "LogEntry \<Rightarrow> (string \<times> string) list" where
  "alert_of e = (if level e = ''error'' \<or> level e = ''warning'' then [(level e, message e)] else [])"

definition last_entry :: "LogEntry list \<Rightarrow> (string \<times> string) option" where
  "last_entry es = (case rev es of [] \<Rightarrow> None | e # _ \<Rightarrow> Some (level e, message e))"

definition report :: "(exn + WorkflowResult option) \<times> WorkflowEngine \<Rightarrow> run_report" where
  "report r =
     \<lparr>raised = (case fst r of Inl e \<Rightarrow> Some e | Inr x \<Rightarrow> None),
      returned_current = (fst r = Inr (current_workflow (snd r))),
      final_stage = map_option stage (current_workflow (snd r)),
      final_progress = map_option progress (current_workflow (snd r)),
      final_statuses = (case current_workflow (snd r) of None \<Rightarrow> [] | Some w \<Rightarrow> map status (tasks w)),
      final_strategy = (case current_workflow (snd r) of None \<Rightarrow> None
                        | Some w \<Rightarrow> map_option strategy (correction w)),
      failure_pending = (case current_workflow (snd r) of None \<Rightarrow> False
                         | Some w \<Rightarrow> validation_failure w \<noteq> None),
      last_log = (case current_workflow (snd r) of None \<Rightarrow> None | Some w \<Rightarrow> last_entry (logs w)),
      log_count = (case current_workflow (snd r) of None \<Rightarrow> 0 | Some w \<Rightarrow> length (logs w)),
      logs_traced = (case current_workflow (snd r) of None \<Rightarrow> False
                     | Some w \<Rightarrow> logs w = log_writes (trace (snd r))),
      stages = stage_writes (trace (snd r)),
      progresses = progress_writes (trace (snd r)),
      status_histories = (case current_workflow (snd r) of None \<Rightarrow> []
                          | Some w \<Rightarrow> map (\<lambda>t. status_writes (t_id t) (trace (snd r))) (tasks w)),
      cover = log_cover (trace (snd r)),
      alerts = (case current_workflow (snd r) of None \<Rightarrow> []
                | Some w \<Rightarrow> concat (map alert_of (logs w))),
      unlogged_stages = unlogged (trace (snd r))\<rparr>"

text \<open>Status machine: the rank of a status, and histories that only move forward.\<close>

fun status_rank :: "TaskStatus \<Rightarrow> nat" where
  "status_rank PENDING = 0"
| "status_rank RUNNING = 1"
| "status_rank TASK_COMPLETED = 2"
| "status_rank TASK_FAILED = 2"
| "status_rank CORRECTED = 3"

fun forward_only :: "TaskStatus list \<Rightarrow> bool" where
  "forward_only [] = True"
| "forward_only [a] = True"
| "forward_only (a # b # rest) = (status_rank a < status_rank b \<and> forward_only (b # rest))"

fun terminal :: "TaskStatus \<Rightarrow> bool" where
  "terminal TASK_COMPLETED = True"
| "terminal TASK_FAILED = True"
| "terminal CORRECTED = True"
| "terminal s = False"

text \<open>The transition FAILED to RUNNING occurs in a history.\<close>

fun retried :: "TaskStatus list \<Rightarrow> bool" where
  "retried (TASK_FAILED # RUNNING # rest) = True"
| "retried (a # rest) = retried rest"
| "retried [] = False"

text \<open>The number of inputs the ingestion loop iterates over.\<close>

definition n_inputs :: "config \<Rightarrow> nat" where
  "n_inputs cfg = length (py_iter (dict_get cfg ''inputs'' (PList [])))"

text \<open>The exception the ingestion loop raises: that of the first input that is no dict.\<close>

fun ingest_error :: "pyval list \<Rightarrow> exn option" where
  "ingest_error [] = None"
| "ingest_error (PDict kvs # rest) = ingest_error rest"
| "ingest_error (v # rest) = Some (no_attribute v ''get'')"

text \<open>
  The exception a configuration makes the run raise, at the operation that raises it:
  the subscript \<open>config['name']\<close>, \<open>len(inputs)\<close>, \<open>inp.get\<close> in the ingestion loop, or
  \<open>.lower()\<close> on the name in \<open>generate_plan\<close>.
\<close>

definition config_error :: "config \<Rightarrow> exn option" where
  "config_error cfg =
     (case cfg ''name'' of
        None \<Rightarrow> Some (KeyError ''name'')
      | Some nm \<Rightarrow>
          (case py_len (dict_get cfg ''inputs'' (PList [])) of
             Inl e \<Rightarrow> Some e
           | Inr n \<Rightarrow>
               (case ingest_error (py_iter (dict_get cfg ''inputs'' (PList []))) of
                  Some e \<Rightarrow> Some e
                | None \<Rightarrow> (case nm of PStr s \<Rightarrow> None | v \<Rightarrow> Some (no_attribute v ''lower'')))))"

text \<open>The progress formula in the words of the specification.\<close>

definition finished_progress :: "nat \<Rightarrow> nat \<Rightarrow> rat" where
  "finished_progress tasks_finished total_tasks =
     3 / 10 + 6 / 10 * (of_nat tasks_finished / of_nat total_tasks)"

text \<open>The stages one iteration of the task loop passes through.\<close>

definition task_stages :: "bool \<Rightarrow> WorkflowStage list" where
  "task_stages failed = (if failed then [VALIDATING, CORRECTING, EXECUTING] else [VALIDATING, EXECUTING])"


text \<open>The sample run on the engine \<open>__init__\<close> builds.\<close>

definition fallback_run :: run_report where
  "fallback_run = report (execute_workflow no_render new_WorkflowEngine demo_config)"

text \<open>A configuration whose name is a number: \<open>generate_plan\<close> raises on \<open>.lower()\<close>.\<close>

definition numeric_name_config :: config where
  "numeric_name_config = [''name'' \<mapsto> PInt 5]"

text \<open>
  The selection policy in the words of the specification: the first pattern that some
  issue contains, compared case-insensitively.
\<close>

definition spec_select_strategy :: "string list \<Rightarrow> string" where
  "spec_select_strategy iss =
     (if list_ex (\<lambda>s. str_in ''edge case'' (py_lower s)) iss then ''inject_defensive_code''
      else if list_ex (\<lambda>s. str_in ''timeout'' (py_lower s)) iss then ''retry_with_modified_input''
      else ''use_alternative_method'')"

definition printable_issues :: "string list \<Rightarrow> bool" where
  "printable_issues iss = list_all (list_all py_printable) iss"

text \<open>A failed validation whose only issue is a tab followed by \<open>imeout\<close>.\<close>

definition tab_validation :: ValidationResult where
  "tab_validation =
     \<lparr>passed = False, issues = [CHR 0x09 # ''imeout''], severity = ''medium'', vr_task_id = ''task_x''\<rparr>"

definition mixed_validation :: ValidationResult where
  "mixed_validation =
     \<lparr>passed = False, issues = [''Request Timeout'', ''unhandled EDGE case''], severity = ''high'',
      vr_task_id = ''task_x''\<rparr>"

text \<open>An engine in the middle of a run whose plan is the single task \<open>sample_task 1\<close>.\<close>

definition sample_workflow :: WorkflowResult where
  "sample_workflow =
     \<lparr>workflow_id = 0, wf_name = PStr ''demo'', stage = EXECUTING, progress = 3 / 10,
      tasks = [sample_task 1], logs = [], artifacts = [], validation_failure = None,
      correction = None, created_at = 0, wf_completed_at = None\<rparr>"

definition sample_engine :: WorkflowEngine where
  "sample_engine = new_WorkflowEngine\<lparr>current_workflow := Some sample_workflow\<rparr>"

text \<open>
  Patterns that share no character with the punctuation of a list rendering: brackets,
  comma, quotes and backslash.
\<close>

definition plain_pattern :: "string \<Rightarrow> bool" where
  "plain_pattern p \<longleftrightarrow> p \<noteq> [] \<and> p \<noteq> '' ''
     \<and> list_all (\<lambda>c. c \<notin> set [CHR 0x27, CHR 0x22, CHR 0x5C, CHR '','', CHR ''['', CHR '']'']) p"





section \<open>The rule engine's aggregation\<close>

lemma run_rules_returns:
  "\<forall>r \<in> set rs. rule_returns out r \<Longrightarrow>
   run_rules rs out acc sev =
     Inr (acc @ concat (map (rule_issues out) (filter (rule_fails out) rs)),
          foldl raise_severity sev (map rule_severity (filter (rule_fails out) rs)))"
proof (induction rs arbitrary: acc sev)
  case Nil
  then show ?case by simp
next
  case (Cons r rs)
  from Cons.prems obtain ok iss where c: "check_function r out = Inr (ok, iss)"
    by (cases "check_function r out") (auto simp: rule_returns_def)
  from Cons.prems have rest: "\<forall>r \<in> set rs. rule_returns out r" by simp
  show ?case
    using c Cons.IH [OF rest] by (simp add: rule_fails_def rule_issues_def)
qed

lemma valid_severity_rank_inj:
  "valid_severity a \<Longrightarrow> valid_severity b \<Longrightarrow> severity_rank a = severity_rank b \<Longrightarrow> a = b"
  by (auto simp: valid_severity_def severity_rank_def split: if_splits)

lemma raise_severity_rank:
  assumes "valid_severity m" "m \<noteq> ''low''" "valid_severity s"
  shows "valid_severity (raise_severity m s) \<and> raise_severity m s \<noteq> ''low''
         \<and> severity_rank (raise_severity m s)
             = max (severity_rank m) (if severity_rank s = 1 then 0 else severity_rank s)"
proof -
  from assms(1,2) have m: "m = ''none'' \<or> m = ''medium'' \<or> m = ''high'' \<or> m = ''critical''"
    by (auto simp: valid_severity_def)
  from assms(3) have s: "s = ''none'' \<or> s = ''low'' \<or> s = ''medium'' \<or> s = ''high'' \<or> s = ''critical''"
    by (auto simp: valid_severity_def)
  from m s show ?thesis
    by (elim disjE) (simp_all add: raise_severity_def severity_rank_def valid_severity_def)
qed

lemma sev_related_step:
  assumes "sev_related m m'" "valid_severity s"
  shows "sev_related (raise_severity m s) (if severity_rank m' < severity_rank s then s else m')"
proof -
  from assms(1) have a: "valid_severity m" "m \<noteq> ''low''" "valid_severity m'"
    "severity_rank m = (if severity_rank m' = 1 then 0 else severity_rank m')"
    by (simp_all add: sev_related_def)
  note r = raise_severity_rank [OF a(1,2) assms(2)]
  show ?thesis
    unfolding sev_related_def using r a(3,4) assms(2) by (auto split: if_splits)
qed

lemma sev_related_fold:
  "sev_related m m' \<Longrightarrow> \<forall>s \<in> set sevs. valid_severity s \<Longrightarrow>
   sev_related (foldl raise_severity m sevs)
               (foldl (\<lambda>m s. if severity_rank m < severity_rank s then s else m) m' sevs)"
proof (induction sevs arbitrary: m m')
  case Nil
  then show ?case by simp
next
  case (Cons s sevs)
  then show ?case using sev_related_step [of m m' s] by simp
qed

lemma raise_severity_max:
  assumes "\<forall>s \<in> set sevs. valid_severity s" and "max_severity_of sevs \<noteq> ''low''"
  shows "foldl raise_severity ''none'' sevs = max_severity_of sevs"
proof -
  have "sev_related ''none'' ''none''"
    by (simp add: sev_related_def valid_severity_def severity_rank_def)
  from sev_related_fold [OF this assms(1)]
  have r: "sev_related (foldl raise_severity ''none'' sevs) (max_severity_of sevs)"
    by (simp add: max_severity_of_def)
  have "severity_rank (max_severity_of sevs) \<noteq> 1"
    using r assms(2) by (auto simp: sev_related_def valid_severity_def severity_rank_def split: if_splits)
  with r show ?thesis
    by (auto simp: sev_related_def intro: valid_severity_rank_inj)
qed

lemmas default_rule_defs = new_Validator_def load_default_rules_def rule_fails_def rule_returns_def
  rule_issues_def check_citations_def check_completeness_def check_format_def
  calculate_quality_score_def dict_get_def

lemma failing_rules_empty_output:
  "failing_rules new_Validator Map.empty = map snd (take 2 load_default_rules)"
  by (simp add: failing_rules_def default_rule_defs)

text \<open>
  C2 (as amended). For a task whose step number is not 3 and rules that all return a
  verdict, \<open>Validator.validate\<close> returns the aggregate of the specification: \<open>passed\<close>
  is true iff every rule passes, \<open>issues\<close> is the concatenation of the failing rules'
  issues in registration order, and \<open>severity\<close> is the maximum severity among the failing
  rules, provided each failing rule reports at least one issue, the severities of the
  failing rules are among none, low, medium, high, critical, and their maximum is not low.
\<close>

theorem validate_aggregation:
  assumes "step_number task \<noteq> 3"
      and "\<forall>r \<in> set (map snd (rules v)). rule_returns out r"
      and "\<forall>r \<in> set (failing_rules v out). rule_issues out r \<noteq> []"
      and "\<forall>r \<in> set (failing_rules v out). valid_severity (rule_severity r)"
      and "max_severity_of (map rule_severity (failing_rules v out)) \<noteq> ''low''"
  shows "validate v task out = Inr (spec_validate v task out)"
proof -
  let ?fs = "failing_rules v out"
  have p: "(concat (map (rule_issues out) ?fs) = []) = (?fs = [])"
    using assms(3) by (cases ?fs) auto
  have s: "foldl raise_severity ''none'' (map rule_severity ?fs)
             = max_severity_of (map rule_severity ?fs)"
    using raise_severity_max [of "map rule_severity ?fs"] assms(4,5) by simp
  show ?thesis
    using assms(1) run_rules_returns [OF assms(2), of "[]" "''none''"] p s
    by (simp add: validate_def spec_validate_def failing_rules_def)
qed

theorem validate_aggregation_witness:
  "validate new_Validator (sample_task 1) Map.empty =
     Inr \<lparr>passed = False,
          issues = [''Missing citations'', ''Missing required field: result'',
                    ''Missing required field: data''],
          severity = ''high'', vr_task_id = ''task_x''\<rparr>"
proof -
  have 1: "step_number (sample_task 1) \<noteq> 3" by (simp add: sample_task_def)
  have 2: "\<forall>r \<in> set (map snd (rules new_Validator)). rule_returns Map.empty r"
    by (simp add: default_rule_defs)
  have 3: "\<forall>r \<in> set (failing_rules new_Validator Map.empty). rule_issues Map.empty r \<noteq> []"
    by (simp add: failing_rules_empty_output) (simp add: default_rule_defs)
  have 4: "\<forall>r \<in> set (failing_rules new_Validator Map.empty). valid_severity (rule_severity r)"
    by (simp add: failing_rules_empty_output) (simp add: default_rule_defs valid_severity_def)
  have 5: "max_severity_of (map rule_severity (failing_rules new_Validator Map.empty)) \<noteq> ''low''"
    by (simp add: failing_rules_empty_output)
       (simp add: default_rule_defs max_severity_of_def severity_rank_def)
  show ?thesis
    using validate_aggregation [OF 1 2 3 4 5]
    by (simp add: spec_validate_def failing_rules_empty_output)
       (simp add: default_rule_defs max_severity_of_def severity_rank_def sample_task_def)
qed

text \<open>
  The claim as stated fails at step 3: every default rule passes on \<open>passing_output\<close>,
  and the result is a failure all the same.
\<close>

theorem validate_step3_counterexample:
  "failing_rules new_Validator passing_output = []
   \<and> validate new_Validator (sample_task 3) passing_output =
       Inr \<lparr>passed = False,
            issues = [''Missing error handling for edge case: empty citation list''],
            severity = ''medium'', vr_task_id = ''task_x''\<rparr>"
  by (simp add: failing_rules_def default_rule_defs passing_output_def validate_def sample_task_def)

text \<open>A failing rule of severity \<open>low\<close> leaves the overall severity at \<open>none\<close>.\<close>

lemma validate_low_severity:
  "validate \<lparr>rules = [(''style'', low_rule)]\<rparr> (sample_task 1) Map.empty =
     Inr \<lparr>passed = False, issues = [''bad style''], severity = ''none'', vr_task_id = ''task_x''\<rparr>"
  by (simp add: validate_def sample_task_def low_rule_def raise_severity_def)

section \<open>Plan generation\<close>

lemma str_int_digits [simp]:
  "str_int 1 = ''1''" "str_int 2 = ''2''" "str_int 3 = ''3''" "str_int 4 = ''4''" "str_int 5 = ''5''"
  by code_simp+

lemma str_nat_5 [simp]: "str_nat 5 = ''5''"
  by code_simp

lemma plan_steps_cases:
  "plan_steps s = research_plan \<or> plan_steps s = code_plan \<or> plan_steps s = default_plan"
  by (simp add: plan_steps_def)

lemma plan_steps_five: "\<exists>d1 d2 d3 d4 d5. plan_steps s = [d1, d2, d3, d4, d5]"
  using plan_steps_cases [of s] by (auto simp: research_plan_def code_plan_def default_plan_def)

text \<open>
  C9. For every configuration whose name, when present, is text and whose inputs, when
  present, have a length, \<open>generate_plan\<close> returns exactly five tasks with ids
  \<open>task_1\<close> .. \<open>task_5\<close>, step numbers 1..5 and status PENDING, whatever the inputs and
  the engine are; only the descriptions depend on the configuration, through its name.
\<close>

theorem generate_plan_five_tasks:
  assumes "name_ok cfg" and "inputs_sized cfg"
  shows "\<exists>ts eng'. generate_plan eng cfg = (Inr ts, eng')
           \<and> map t_id ts = [''task_1'', ''task_2'', ''task_3'', ''task_4'', ''task_5'']
           \<and> map step_number ts = [1, 2, 3, 4, 5]
           \<and> map status ts = [PENDING, PENDING, PENDING, PENDING, PENDING]
           \<and> map description ts = plan_steps (task_type_of cfg)"
proof -
  from assms(1) obtain s where s: "dict_get cfg ''name'' (PStr ''workflow'') = PStr s"
    by (auto simp: name_ok_def split: pyval.splits)
  from assms(2) obtain n where n: "py_len (dict_get cfg ''inputs'' (PList [])) = Inr n"
    by (auto simp: inputs_sized_def split: sum.splits)
  obtain d1 d2 d3 d4 d5 where d: "plan_steps s = [d1, d2, d3, d4, d5]"
    using plan_steps_five by blast
  show ?thesis
    using s n d by (simp add: generate_plan_def task_type_of_def new_Task_def Let_def)
qed

theorem generate_plan_five_tasks_witness:
  "map t_id (projr (fst (generate_plan new_WorkflowEngine Map.empty)))
     = [''task_1'', ''task_2'', ''task_3'', ''task_4'', ''task_5'']
   \<and> map description (projr (fst (generate_plan new_WorkflowEngine Map.empty))) = default_plan"
proof -
  have 1: "name_ok Map.empty" by (simp add: name_ok_def dict_get_def)
  have 2: "inputs_sized Map.empty" by (simp add: inputs_sized_def dict_get_def)
  have 3: "plan_steps (task_type_of Map.empty) = default_plan"
    unfolding task_type_of_def dict_get_def plan_steps_def by code_simp
  from generate_plan_five_tasks [OF 1 2, of new_WorkflowEngine] 3
  show ?thesis by auto
qed

section \<open>Effects of the engine's methods\<close>

lemma add_log_Some:
  "current_workflow eng = Some w \<Longrightarrow>
   add_log l m md eng =
     eng\<lparr>current_workflow :=
           Some (w\<lparr>logs := logs w @ [\<lparr>timestamp = clock eng, level = l, message = m, metadata = md\<rparr>]\<rparr>),
         clock := clock eng + 1,
         trace := trace eng @ [Logged \<lparr>timestamp = clock eng, level = l, message = m, metadata = md\<rparr>]\<rparr>"
  by (simp add: add_log_def now_def Let_def)

lemma ingest_inputs_state:
  "current_workflow eng = Some w \<Longrightarrow>
   snd (ingest_inputs render xs eng) =
     eng\<lparr>current_workflow := Some (w\<lparr>logs := logs w @ ingest_log render xs (clock eng)\<rparr>),
         clock := clock eng + length (ingest_log render xs (clock eng)),
         trace := trace eng @ map Logged (ingest_log render xs (clock eng))\<rparr>"
proof (induction xs arbitrary: eng w)
  case Nil
  then show ?case by simp
next
  case (Cons x xs)
  show ?case
  proof (cases x)
    case (PDict kvs)
    show ?thesis
      using Cons.prems PDict
      by (simp add: add_log_Some Cons.IH)
  qed (use Cons.prems in simp_all)
qed

lemma ingest_inputs_result: "fst (ingest_inputs render xs eng) = ingest_error xs"
proof (induction xs arbitrary: eng)
  case Nil
  then show ?case by simp
next
  case (Cons x xs)
  then show ?case by (cases x) simp_all
qed

lemma ingest_error_None: "ingest_error xs = None \<longleftrightarrow> list_all is_dict xs"
proof (induction xs)
  case Nil
  then show ?case by simp
next
  case (Cons x xs)
  then show ?case by (cases x) simp_all
qed

lemma ingest_log_length: "list_all is_dict xs \<Longrightarrow> length (ingest_log render xs k) = length xs"
proof (induction xs arbitrary: k)
  case Nil
  then show ?case by simp
next
  case (Cons x xs)
  then show ?case by (cases x) simp_all
qed

lemma ingest_inputs_eq:
  "current_workflow eng = Some w \<Longrightarrow>
   ingest_inputs render xs eng =
     (ingest_error xs,
      eng\<lparr>current_workflow := Some (w\<lparr>logs := logs w @ ingest_log render xs (clock eng)\<rparr>),
          clock := clock eng + length (ingest_log render xs (clock eng)),
          trace := trace eng @ map Logged (ingest_log render xs (clock eng))\<rparr>)"
  using ingest_inputs_state [of eng w render xs] ingest_inputs_result [of render xs eng]
  by (cases "ingest_inputs render xs eng") simp

lemmas state_defs = now_def set_stage_def set_progress_def set_status_def store_task_def
  update_workflow_def Let_def

section \<open>A configuration without a name\<close>

text \<open>
  C10. If the configuration has no \<open>name\<close> key, \<open>execute_workflow\<close> raises
  \<open>KeyError('name')\<close> after creating a run named \<open>Unnamed Workflow\<close>: the run is left
  with stage FAILED, its log holds the failure at level \<open>error\<close> and nothing else, it has
  no task, and no task status was ever written.
\<close>

theorem missing_name_raises:
  assumes "cfg ''name'' = None"
  shows "\<exists>eng' w entry.
           execute_workflow render eng cfg = (Inl (KeyError ''name''), eng')
         \<and> current_workflow eng' = Some w
         \<and> wf_name w = PStr ''Unnamed Workflow''
         \<and> stage w = FAILED
         \<and> tasks w = []
         \<and> logs w = [entry] \<and> level entry = ''error''
         \<and> message entry = msg_failed (str_exn (KeyError ''name''))
         \<and> trace eng' = [StageSet INGESTING, StageSet FAILED, Logged entry]"
  using assms
  by (simp add: execute_workflow_def workflow_body_def state_defs add_log_Some dict_get_def)

theorem missing_name_raises_witness:
  "fst (execute_workflow no_render new_WorkflowEngine Map.empty) = Inl (KeyError ''name'')
   \<and> map_option stage (current_workflow (snd (execute_workflow no_render new_WorkflowEngine Map.empty)))
       = Some FAILED"
proof -
  have 1: "(Map.empty :: config) ''name'' = None" by simp
  from missing_name_raises [OF 1, of no_render new_WorkflowEngine]
  show ?thesis by auto
qed

section \<open>Execution and validation of one task\<close>

lemma validate_engine_output:
  assumes "step_number task \<noteq> 3"
  shows "validate new_Validator task
           [''task_id'' \<mapsto> a, ''result'' \<mapsto> b, ''data'' \<mapsto> c]
         = Inr \<lparr>passed = False, issues = [''Missing citations''], severity = ''medium'',
                vr_task_id = t_id task\<rparr>"
  using assms
  by (simp add: validate_def new_Validator_def load_default_rules_def check_citations_def
      check_completeness_def check_format_def calculate_quality_score_def dict_get_def
      raise_severity_def)

text \<open>
  C8. Execution depends on the step number only, for every input: the task with step
  number 3 fails with error \<open>Edge case not handled\<close>, every other task completes.
  Validation of the task with step number 3 fails with the single issue \<open>Missing error
  handling for edge case: empty citation list\<close> at severity medium, whatever the output.
  On an engine without validator, which is the engine \<open>__init__\<close> builds, a task with
  another step number passes validation, whatever the output. (Were a validator bound,
  \<open>validate_output\<close> would return what the validator returns.)
\<close>

theorem step_position_outcomes:
  "(step_number task = 3 \<longrightarrow>
      fst (execute_task eng task inputs) = [''success'' \<mapsto> PBool False, ''error'' \<mapsto> PStr step3_error]
      \<and> status (fst (snd (execute_task eng task inputs))) = TASK_FAILED
      \<and> error (fst (snd (execute_task eng task inputs))) = Some step3_error
      \<and> fst (validate_output eng task out)
          = Inr \<lparr>passed = False, issues = [step3_issue], severity = ''medium'', vr_task_id = t_id task\<rparr>)
   \<and> (step_number task \<noteq> 3 \<longrightarrow>
      status (fst (snd (execute_task eng task inputs))) = TASK_COMPLETED
      \<and> error (fst (snd (execute_task eng task inputs))) = error task
      \<and> (validator eng = None \<longrightarrow>
           fst (validate_output eng task out)
             = Inr \<lparr>passed = True, issues = [], severity = ''none'', vr_task_id = t_id task\<rparr>)
      \<and> (\<forall>v. validator eng = Some v \<longrightarrow> fst (validate_output eng task out) = validate v task out))"
proof -
  have v: "validator (add_log l m md eng) = validator eng" for l m md
    by (cases "current_workflow eng") (simp_all add: add_log_def now_def Let_def)
  have e3: "step_number task = 3 \<Longrightarrow>
      fst (execute_task eng task inputs) = [''success'' \<mapsto> PBool False, ''error'' \<mapsto> PStr step3_error]
      \<and> status (fst (snd (execute_task eng task inputs))) = TASK_FAILED
      \<and> error (fst (snd (execute_task eng task inputs))) = Some step3_error"
    by (simp add: execute_task_def state_defs)
  have e: "step_number task \<noteq> 3 \<Longrightarrow>
      status (fst (snd (execute_task eng task inputs))) = TASK_COMPLETED
      \<and> error (fst (snd (execute_task eng task inputs))) = error task"
    by (simp add: execute_task_def state_defs)
  have v3: "step_number task = 3 \<Longrightarrow> fst (validate_output eng task out)
          = Inr \<lparr>passed = False, issues = [step3_issue], severity = ''medium'', vr_task_id = t_id task\<rparr>"
    by (cases "validator eng") (simp_all add: validate_output_def Let_def v validate_def step3_issue_def)
  have vn: "step_number task \<noteq> 3 \<Longrightarrow> validator eng = None \<Longrightarrow>
           fst (validate_output eng task out)
             = Inr \<lparr>passed = True, issues = [], severity = ''none'', vr_task_id = t_id task\<rparr>"
    by (simp add: validate_output_def Let_def v)
  have vs: "validator eng = Some x \<Longrightarrow> fst (validate_output eng task out) = validate x task out" for x
    by (simp add: validate_output_def Let_def v)
  show ?thesis using e3 e v3 vn vs by blast
qed

theorem step_position_outcomes_witness:
  "validator new_WorkflowEngine = None
   \<and> status (fst (snd (execute_task new_WorkflowEngine (sample_task 3) (PList [])))) = TASK_FAILED
   \<and> fst (validate_output new_WorkflowEngine (sample_task 3) passing_output)
       = Inr \<lparr>passed = False, issues = [step3_issue], severity = ''medium'', vr_task_id = ''task_x''\<rparr>
   \<and> status (fst (snd (execute_task new_WorkflowEngine (sample_task 1) (PList [])))) = TASK_COMPLETED
   \<and> fst (validate_output new_WorkflowEngine (sample_task 1) Map.empty)
       = Inr \<lparr>passed = True, issues = [], severity = ''none'', vr_task_id = ''task_x''\<rparr>"
proof -
  have 3: "step_number (sample_task 3) = 3" and 1: "step_number (sample_task 1) \<noteq> 3"
    and n: "validator new_WorkflowEngine = None"
    and i: "t_id (sample_task 3) = ''task_x''" "t_id (sample_task 1) = ''task_x''"
    by (simp_all add: sample_task_def new_WorkflowEngine_def)
  from step_position_outcomes [of "sample_task 3" new_WorkflowEngine "PList []" passing_output]
       step_position_outcomes [of "sample_task 1" new_WorkflowEngine "PList []" Map.empty]
       3 1 n i
  show ?thesis by simp
qed

section \<open>One iteration of the task loop\<close>

lemmas step_defs = state_defs execute_task_def validate_output_def apply_correction_def process_task_def

lemma correct_step3:
  "correct new_Corrector task \<lparr>passed = False, issues = [step3_issue], severity = sv, vr_task_id = ti\<rparr>
     = \<lparr>action = ''Apply inject_defensive_code to fix validation issues'',
        strategy = ''inject_defensive_code'', confidence = 95 / 100, cs_task_id = t_id task\<rparr>"
  unfolding correct_def select_strategy_def new_Corrector_def step3_issue_def Let_def
  by code_simp

lemma correct_citations:
  "correct new_Corrector task \<lparr>passed = False, issues = [''Missing citations''], severity = sv, vr_task_id = ti\<rparr>
     = \<lparr>action = ''Apply use_alternative_method to fix validation issues'',
        strategy = ''use_alternative_method'', confidence = 95 / 100, cs_task_id = t_id task\<rparr>"
  unfolding correct_def select_strategy_def new_Corrector_def Let_def
  by code_simp

lemma process_task_fallback_other:
  "step_number task \<noteq> 3 \<Longrightarrow> current_workflow eng = Some w \<Longrightarrow> validator eng = None \<Longrightarrow> corrector eng = None \<Longrightarrow>
   process_task n inputs (i, task) eng =
     (None,
      eng\<lparr>clock := clock eng + 5,
          current_workflow :=
            Some (w\<lparr>logs := logs w @
                      [\<lparr>timestamp = clock eng + 1, level = ''info'',
                        message = msg_executing (step_number task) (description task), metadata = []\<rparr>,
                       \<lparr>timestamp = clock eng + 3, level = ''info'',
                        message = msg_validating (step_number task), metadata = []\<rparr>,
                       \<lparr>timestamp = clock eng + 4, level = ''success'',
                        message = msg_validation_passed (step_number task), metadata = []\<rparr>],
                    tasks := (tasks w)[i := task\<lparr>started_at := Some (clock eng), status := TASK_COMPLETED,
                                              completed_at := Some (clock eng + 2)\<rparr>],
                    stage := EXECUTING, progress := task_progress n i\<rparr>),
          trace := trace eng @
            [StatusSet (t_id task) RUNNING,
             Logged \<lparr>timestamp = clock eng + 1, level = ''info'',
                     message = msg_executing (step_number task) (description task), metadata = []\<rparr>,
             StatusSet (t_id task) TASK_COMPLETED, StageSet VALIDATING,
             Logged \<lparr>timestamp = clock eng + 3, level = ''info'',
                     message = msg_validating (step_number task), metadata = []\<rparr>,
             Logged \<lparr>timestamp = clock eng + 4, level = ''success'',
                     message = msg_validation_passed (step_number task), metadata = []\<rparr>,
             StageSet EXECUTING, ProgressSet (task_progress n i)]\<rparr>)"
  by (simp add: step_defs add_log_Some task_progress_def eval_nat_numeral)

lemma process_task_fallback_step3:
  "step_number task = 3 \<Longrightarrow> current_workflow eng = Some w \<Longrightarrow> validator eng = None \<Longrightarrow> corrector eng = None \<Longrightarrow>
   process_task n inputs (i, task) eng =
     (None,
      eng\<lparr>clock := clock eng + 9,
          current_workflow :=
            Some (w\<lparr>logs := logs w @
                      [\<lparr>timestamp = clock eng + 1, level = ''info'',
                        message = msg_executing 3 (description task), metadata = []\<rparr>,
                       \<lparr>timestamp = clock eng + 2, level = ''info'', message = msg_validating 3, metadata = []\<rparr>,
                       \<lparr>timestamp = clock eng + 3, level = ''error'',
                        message = msg_validation_failed step3_issue, metadata = []\<rparr>,
                       \<lparr>timestamp = clock eng + 4, level = ''warning'', message = msg_initiating, metadata = []\<rparr>,
                       \<lparr>timestamp = clock eng + 5, level = ''warning'', message = msg_strategy fallback_action,
                        metadata = [(''strategy'', PStr ''inject_defensive_code''), (''confidence'', PFloat (95 / 100))]\<rparr>,
                       \<lparr>timestamp = clock eng + 6, level = ''info'', message = msg_reexecuting, metadata = []\<rparr>,
                       \<lparr>timestamp = clock eng + 8, level = ''success'',
                        message = msg_passed_after_correction, metadata = []\<rparr>],
                    tasks := (tasks w)[i := task\<lparr>started_at := Some (clock eng), error := Some step3_error,
                                              status := CORRECTED, correction_applied := True,
                                              completed_at := Some (clock eng + 7)\<rparr>],
                    correction := Some \<lparr>action = fallback_action, strategy = ''inject_defensive_code'',
                                        confidence = 95 / 100, cs_task_id = t_id task\<rparr>,
                    validation_failure := None,
                    stage := EXECUTING, progress := task_progress n i\<rparr>),
          trace := trace eng @
            [StatusSet (t_id task) RUNNING,
             Logged \<lparr>timestamp = clock eng + 1, level = ''info'',
                     message = msg_executing 3 (description task), metadata = []\<rparr>,
             StatusSet (t_id task) TASK_FAILED, StageSet VALIDATING,
             Logged \<lparr>timestamp = clock eng + 2, level = ''info'', message = msg_validating 3, metadata = []\<rparr>,
             Logged \<lparr>timestamp = clock eng + 3, level = ''error'',
                     message = msg_validation_failed step3_issue, metadata = []\<rparr>,
             StageSet CORRECTING,
             Logged \<lparr>timestamp = clock eng + 4, level = ''warning'', message = msg_initiating, metadata = []\<rparr>,
             Logged \<lparr>timestamp = clock eng + 5, level = ''warning'', message = msg_strategy fallback_action,
                     metadata = [(''strategy'', PStr ''inject_defensive_code''), (''confidence'', PFloat (95 / 100))]\<rparr>,
             Logged \<lparr>timestamp = clock eng + 6, level = ''info'', message = msg_reexecuting, metadata = []\<rparr>,
             StatusSet (t_id task) CORRECTED,
             Logged \<lparr>timestamp = clock eng + 8, level = ''success'',
                     message = msg_passed_after_correction, metadata = []\<rparr>,
             StageSet EXECUTING, ProgressSet (task_progress n i)]\<rparr>)"
  by (simp add: step_defs add_log_Some task_progress_def eval_nat_numeral)

lemma process_task_bound_other:
  "step_number task \<noteq> 3 \<Longrightarrow> current_workflow eng = Some w \<Longrightarrow>
   validator eng = Some new_Validator \<Longrightarrow> corrector eng = Some new_Corrector \<Longrightarrow>
   process_task n inputs (i, task) eng =
     (None,
      eng\<lparr>clock := clock eng + 5,
          current_workflow :=
            Some (w\<lparr>logs := logs w @
                      [\<lparr>timestamp = clock eng + 1, level = ''info'',
                        message = msg_executing (step_number task) (description task), metadata = []\<rparr>,
                       \<lparr>timestamp = clock eng + 3, level = ''info'',
                        message = msg_validating (step_number task), metadata = []\<rparr>,
                       \<lparr>timestamp = clock eng + 4, level = ''warning'', message = msg_initiating, metadata = []\<rparr>],
                    tasks := (tasks w)[i := task\<lparr>started_at := Some (clock eng), status := TASK_COMPLETED,
                                              completed_at := Some (clock eng + 2)\<rparr>],
                    correction := Some \<lparr>action = ''Apply use_alternative_method to fix validation issues'',
                                        strategy = ''use_alternative_method'', confidence = 95 / 100,
                                        cs_task_id = t_id task\<rparr>,
                    validation_failure := None,
                    stage := EXECUTING, progress := task_progress n i\<rparr>),
          trace := trace eng @
            [StatusSet (t_id task) RUNNING,
             Logged \<lparr>timestamp = clock eng + 1, level = ''info'',
                     message = msg_executing (step_number task) (description task), metadata = []\<rparr>,
             StatusSet (t_id task) TASK_COMPLETED, StageSet VALIDATING,
             Logged \<lparr>timestamp = clock eng + 3, level = ''info'',
                     message = msg_validating (step_number task), metadata = []\<rparr>,
             StageSet CORRECTING,
             Logged \<lparr>timestamp = clock eng + 4, level = ''warning'', message = msg_initiating, metadata = []\<rparr>,
             StageSet EXECUTING, ProgressSet (task_progress n i)]\<rparr>)"
  by (simp add: step_defs add_log_Some task_progress_def eval_nat_numeral validate_engine_output
      correct_citations)

lemma process_task_bound_step3:
  "step_number task = 3 \<Longrightarrow> current_workflow eng = Some w \<Longrightarrow>
   validator eng = Some new_Validator \<Longrightarrow> corrector eng = Some new_Corrector \<Longrightarrow>
   process_task n inputs (i, task) eng =
     (None,
      eng\<lparr>clock := clock eng + 4,
          current_workflow :=
            Some (w\<lparr>logs := logs w @
                      [\<lparr>timestamp = clock eng + 1, level = ''info'',
                        message = msg_executing 3 (description task), metadata = []\<rparr>,
                       \<lparr>timestamp = clock eng + 2, level = ''info'', message = msg_validating 3, metadata = []\<rparr>,
                       \<lparr>timestamp = clock eng + 3, level = ''warning'', message = msg_initiating, metadata = []\<rparr>],
                    tasks := (tasks w)[i := task\<lparr>started_at := Some (clock eng), status := TASK_FAILED,
                                              error := Some step3_error\<rparr>],
                    correction := Some \<lparr>action = ''Apply inject_defensive_code to fix validation issues'',
                                        strategy = ''inject_defensive_code'', confidence = 95 / 100,
                                        cs_task_id = t_id task\<rparr>,
                    validation_failure := None,
                    stage := EXECUTING, progress := task_progress n i\<rparr>),
          trace := trace eng @
            [StatusSet (t_id task) RUNNING,
             Logged \<lparr>timestamp = clock eng + 1, level = ''info'',
                     message = msg_executing 3 (description task), metadata = []\<rparr>,
             StatusSet (t_id task) TASK_FAILED, StageSet VALIDATING,
             Logged \<lparr>timestamp = clock eng + 2, level = ''info'', message = msg_validating 3, metadata = []\<rparr>,
             StageSet CORRECTING,
             Logged \<lparr>timestamp = clock eng + 3, level = ''warning'', message = msg_initiating, metadata = []\<rparr>,
             StageSet EXECUTING, ProgressSet (task_progress n i)]\<rparr>)"
  by (simp add: step_defs add_log_Some task_progress_def eval_nat_numeral validate_def correct_step3
      step3_issue_def [symmetric])

section \<open>Whole runs\<close>

lemma stage_writes_simps [simp]:
  "stage_writes [] = []"
  "stage_writes (e # tr) = stage_of e @ stage_writes tr"
  "stage_writes (tr @ tr') = stage_writes tr @ stage_writes tr'"
  "stage_writes (map Logged es) = []"
  by (induction es) (simp_all add: stage_writes_def)

lemma progress_writes_simps [simp]:
  "progress_writes [] = []"
  "progress_writes (e # tr) = progress_of e @ progress_writes tr"
  "progress_writes (tr @ tr') = progress_writes tr @ progress_writes tr'"
  "progress_writes (map Logged es) = []"
  by (induction es) (simp_all add: progress_writes_def)

lemma status_writes_simps [simp]:
  "status_writes tid [] = []"
  "status_writes tid (e # tr) = status_of tid e @ status_writes tid tr"
  "status_writes tid (tr @ tr') = status_writes tid tr @ status_writes tid tr'"
  "status_writes tid (map Logged es) = []"
  by (induction es) (simp_all add: status_writes_def)

lemma log_writes_simps [simp]:
  "log_writes [] = []"
  "log_writes (e # tr) = log_of e @ log_writes tr"
  "log_writes (tr @ tr') = log_writes tr @ log_writes tr'"
  "log_writes (map Logged es) = es"
  by (induction es) (simp_all add: log_writes_def)

lemma cover_logged: "foldr cover_step (map Logged es) c = map_option (\<lambda>k. k + length es) c"
  by (induction es) (simp_all add: option.map_comp comp_def option.map_ident)

lemma log_cover_simps [simp]:
  "log_cover [] = Some 0"
  "log_cover (e # tr) = cover_step e (log_cover tr)"
  "log_cover (map Logged es @ tr) = map_option (\<lambda>k. k + length es) (log_cover tr)"
  by (simp_all add: log_cover_def cover_logged)

lemma followed_by_logged:
  "followed_by (map Logged es @ tr) = (if es = [] then followed_by tr else None)"
  by (cases es) simp_all

lemma unlogged_logged [simp]: "unlogged (map Logged es @ tr) = unlogged tr"
  by (induction es) simp_all

lemma py_iter_length: "py_len v = Inr n \<Longrightarrow> length (py_iter v) = n"
  by (cases v) auto

lemma config_okD:
  assumes "config_ok cfg"
  obtains nm v where "cfg ''name'' = Some (PStr nm)" "dict_get cfg ''inputs'' (PList []) = v"
    "py_len v = Inr (length (py_iter v))" "list_all is_dict (py_iter v)"
    "ingest_error (py_iter v) = None"
proof -
  from assms obtain nm n where
    a: "cfg ''name'' = Some (PStr nm)" "py_len (dict_get cfg ''inputs'' (PList [])) = Inr n"
       "list_all is_dict (py_iter (dict_get cfg ''inputs'' (PList [])))"
    by (auto simp: config_ok_def inputs_sized_def split: option.splits pyval.splits sum.splits)
  from a(2) have "length (py_iter (dict_get cfg ''inputs'' (PList []))) = n" by (rule py_iter_length)
  with a that show ?thesis by (simp add: ingest_error_None)
qed

lemma alerts_ingest_log: "concat (map alert_of (ingest_log render xs k)) = []"
  by (induction render xs k rule: ingest_log.induct) (simp_all add: alert_of_def)

lemmas run_defs = execute_workflow_def workflow_body_def state_defs generate_plan_def new_Task_def
  generate_artifacts_def final_artifacts_def add_log_Some ingest_inputs_eq

lemma report_fallback:
  assumes "config_ok cfg" "validator eng = None" "corrector eng = None"
  shows "report (execute_workflow render eng cfg) =
     \<lparr>raised = None, returned_current = True,
      final_stage = Some COMPLETED, final_progress = Some 1,
      final_statuses = [TASK_COMPLETED, TASK_COMPLETED, CORRECTED, TASK_COMPLETED, TASK_COMPLETED],
      final_strategy = Some ''inject_defensive_code'',
      failure_pending = False,
      last_log = Some (''success'', msg_completed),
      log_count = n_inputs cfg + 28,
      logs_traced = True,
      stages = [INGESTING, PLANNING, EXECUTING, VALIDATING, EXECUTING, VALIDATING, EXECUTING,
                VALIDATING, CORRECTING, EXECUTING, VALIDATING, EXECUTING, VALIDATING, EXECUTING,
                COMPLETED],
      progresses = [1 / 5, 3 / 10, 21 / 50, 27 / 50, 33 / 50, 39 / 50, 9 / 10, 9 / 10, 1],
      status_histories = [[RUNNING, TASK_COMPLETED], [RUNNING, TASK_COMPLETED],
                          [RUNNING, TASK_FAILED, CORRECTED], [RUNNING, TASK_COMPLETED],
                          [RUNNING, TASK_COMPLETED]],
      cover = Some (n_inputs cfg + 13),
      alerts = [(''error'', msg_validation_failed step3_issue), (''warning'', msg_initiating),
                (''warning'', msg_strategy fallback_action)],
      unlogged_stages = [(EXECUTING, Some COMPLETED)]\<rparr>"
proof -
  from assms(1) obtain nm v where c: "cfg ''name'' = Some (PStr nm)"
    "dict_get cfg ''inputs'' (PList []) = v" "py_len v = Inr (length (py_iter v))"
    "list_all is_dict (py_iter v)" "ingest_error (py_iter v) = None"
    by (rule config_okD)
  obtain d1 d2 d3 d4 d5 where d: "plan_steps nm = [d1, d2, d3, d4, d5]"
    using plan_steps_five by blast
  have nm: "dict_get cfg ''name'' (PStr ''workflow'') = PStr nm" using c(1) by (simp add: dict_get_def)
  have n: "n_inputs cfg = length (py_iter v)" using c(2) by (simp add: n_inputs_def)
  show ?thesis
    using c d nm assms(2,3) unfolding n
    by (simp add: run_defs process_task_fallback_other process_task_fallback_step3
        report_def last_entry_def task_progress_def ingest_log_length alert_of_def
        alerts_ingest_log)
qed

lemma report_bound:
  assumes "config_ok cfg" "validator eng = Some new_Validator" "corrector eng = Some new_Corrector"
  shows "report (execute_workflow render eng cfg) =
     \<lparr>raised = None, returned_current = True,
      final_stage = Some COMPLETED, final_progress = Some 1,
      final_statuses = [TASK_COMPLETED, TASK_COMPLETED, TASK_FAILED, TASK_COMPLETED, TASK_COMPLETED],
      final_strategy = Some ''use_alternative_method'',
      failure_pending = False,
      last_log = Some (''success'', msg_completed),
      log_count = n_inputs cfg + 24,
      logs_traced = True,
      stages = [INGESTING, PLANNING, EXECUTING, VALIDATING, CORRECTING, EXECUTING,
                VALIDATING, CORRECTING, EXECUTING, VALIDATING, CORRECTING, EXECUTING,
                VALIDATING, CORRECTING, EXECUTING, VALIDATING, CORRECTING, EXECUTING, COMPLETED],
      progresses = [1 / 5, 3 / 10, 21 / 50, 27 / 50, 33 / 50, 39 / 50, 9 / 10, 9 / 10, 1],
      status_histories = [[RUNNING, TASK_COMPLETED], [RUNNING, TASK_COMPLETED],
                          [RUNNING, TASK_FAILED], [RUNNING, TASK_COMPLETED],
                          [RUNNING, TASK_COMPLETED]],
      cover = Some (n_inputs cfg + 5),
      alerts = [(''warning'', msg_initiating), (''warning'', msg_initiating),
                (''warning'', msg_initiating), (''warning'', msg_initiating),
                (''warning'', msg_initiating)],
      unlogged_stages = [(EXECUTING, Some COMPLETED)]\<rparr>"
proof -
  from assms(1) obtain nm v where c: "cfg ''name'' = Some (PStr nm)"
    "dict_get cfg ''inputs'' (PList []) = v" "py_len v = Inr (length (py_iter v))"
    "list_all is_dict (py_iter v)" "ingest_error (py_iter v) = None"
    by (rule config_okD)
  obtain d1 d2 d3 d4 d5 where d: "plan_steps nm = [d1, d2, d3, d4, d5]"
    using plan_steps_five by blast
  have nm: "dict_get cfg ''name'' (PStr ''workflow'') = PStr nm" using c(1) by (simp add: dict_get_def)
  have n: "n_inputs cfg = length (py_iter v)" using c(2) by (simp add: n_inputs_def)
  show ?thesis
    using c d nm assms(2,3) unfolding n
    by (simp add: run_defs process_task_bound_other process_task_bound_step3
        report_def last_entry_def task_progress_def ingest_log_length alert_of_def
        alerts_ingest_log)
qed

text \<open>
  A configuration that misses the preconditions makes the run raise before any task
  exists: at the name, at the length of the inputs, at the first input that is no dict,
  or in \<open>generate_plan\<close> at a name that is no string.
\<close>

lemma config_error_None: "config_error cfg = None \<longleftrightarrow> config_ok cfg"
  by (auto simp: config_error_def config_ok_def inputs_sized_def ingest_error_None [symmetric]
      split: option.splits sum.splits pyval.splits)

lemma report_failed:
  assumes "config_error cfg = Some e"
  shows "raised (report (execute_workflow render eng cfg)) = Some e
       \<and> fst (execute_workflow render eng cfg) = Inl e
       \<and> final_stage (report (execute_workflow render eng cfg)) = Some FAILED
       \<and> last_log (report (execute_workflow render eng cfg)) = Some (''error'', msg_failed (str_exn e))
       \<and> final_statuses (report (execute_workflow render eng cfg)) = []
       \<and> status_histories (report (execute_workflow render eng cfg)) = []
       \<and> logs_traced (report (execute_workflow render eng cfg))
       \<and> alerts (report (execute_workflow render eng cfg)) = [(''error'', msg_failed (str_exn e))]
       \<and> (final_progress (report (execute_workflow render eng cfg)) = Some 0
            \<and> progresses (report (execute_workflow render eng cfg)) = []
          \<or> final_progress (report (execute_workflow render eng cfg)) = Some (1 / 5)
            \<and> progresses (report (execute_workflow render eng cfg)) = [1 / 5])
       \<and> (stages (report (execute_workflow render eng cfg)) = [INGESTING, FAILED]
          \<or> stages (report (execute_workflow render eng cfg)) = [INGESTING, PLANNING, FAILED])"
proof (cases "cfg ''name''")
  case None
  then show ?thesis
    using assms by (simp add: run_defs report_def last_entry_def dict_get_def config_error_def alert_of_def
        alerts_ingest_log)
next
  case (Some nm)
  define v where "v = dict_get cfg ''inputs'' (PList [])"
  show ?thesis
  proof (cases "py_len v")
    case (Inl e')
    then show ?thesis
      using Some v_def [symmetric] assms
      by (simp add: run_defs report_def last_entry_def config_error_def alert_of_def
          alerts_ingest_log)
  next
    case (Inr n)
    show ?thesis
    proof (cases "ingest_error (py_iter v)")
      case (Some e')
      then show ?thesis
        using \<open>cfg ''name'' = Some nm\<close> Inr v_def [symmetric] assms
        by (simp add: run_defs report_def last_entry_def config_error_def alert_of_def
          alerts_ingest_log)
    next
      case None
      have nm: "dict_get cfg ''name'' (PStr ''workflow'') = nm"
        using \<open>cfg ''name'' = Some nm\<close> by (simp add: dict_get_def)
      show ?thesis
        using \<open>cfg ''name'' = Some nm\<close> Inr v_def [symmetric] None nm assms
        by (cases nm) (simp_all add: run_defs report_def last_entry_def config_error_def alert_of_def
            alerts_ingest_log)
    qed
  qed
qed

section \<open>Properties of whole runs\<close>

lemma demo_config_ok: "config_ok demo_config"
  by (simp add: config_ok_def demo_config_def inputs_sized_def dict_get_def)

lemma demo_config_error: "config_error demo_config = None"
  using demo_config_ok by (simp add: config_error_None)

lemma n_inputs_demo: "n_inputs demo_config = 1"
  by (simp add: n_inputs_def demo_config_def dict_get_def)

lemma standard_new: "standard_engine new_WorkflowEngine"
  by (simp add: standard_engine_def new_WorkflowEngine_def)

lemma fallback_run_eq:
  "fallback_run =
     \<lparr>raised = None, returned_current = True,
      final_stage = Some COMPLETED, final_progress = Some 1,
      final_statuses = [TASK_COMPLETED, TASK_COMPLETED, CORRECTED, TASK_COMPLETED, TASK_COMPLETED],
      final_strategy = Some ''inject_defensive_code'',
      failure_pending = False,
      last_log = Some (''success'', msg_completed),
      log_count = 29,
      logs_traced = True,
      stages = [INGESTING, PLANNING, EXECUTING, VALIDATING, EXECUTING, VALIDATING, EXECUTING,
                VALIDATING, CORRECTING, EXECUTING, VALIDATING, EXECUTING, VALIDATING, EXECUTING,
                COMPLETED],
      progresses = [1 / 5, 3 / 10, 21 / 50, 27 / 50, 33 / 50, 39 / 50, 9 / 10, 9 / 10, 1],
      status_histories = [[RUNNING, TASK_COMPLETED], [RUNNING, TASK_COMPLETED],
                          [RUNNING, TASK_FAILED, CORRECTED], [RUNNING, TASK_COMPLETED],
                          [RUNNING, TASK_COMPLETED]],
      cover = Some 14,
      alerts = [(''error'', msg_validation_failed step3_issue), (''warning'', msg_initiating),
                (''warning'', msg_strategy fallback_action)],
      unlogged_stages = [(EXECUTING, Some COMPLETED)]\<rparr>"
  unfolding fallback_run_def
  using report_fallback [OF demo_config_ok, of new_WorkflowEngine no_render]
  by (simp add: new_WorkflowEngine_def n_inputs_demo)

lemma task_progress_finished: "task_progress n i = finished_progress (i + 1) n"
  by (simp add: task_progress_def finished_progress_def)

lemma progress_positions:
  assumes "1 \<le> k" "k \<le> 5"
  shows "[1 / 5, 3 / 10, 21 / 50, 27 / 50, 33 / 50, 39 / 50, 9 / 10, 9 / 10, 1 :: rat] ! (k + 1)
         = finished_progress k 5"
proof -
  from assms have "k = 1 \<or> k = 2 \<or> k = 3 \<or> k = 4 \<or> k = 5" by arith
  then show ?thesis by (elim disjE) (simp_all add: finished_progress_def)
qed

lemma task_stages_fallback:
  "concat (map task_stages [False, False, True, False, False]) =
     [VALIDATING, EXECUTING, VALIDATING, EXECUTING, VALIDATING, CORRECTING, EXECUTING,
      VALIDATING, EXECUTING, VALIDATING, EXECUTING]"
  by (simp add: task_stages_def)

lemma process_task_progress:
  assumes "standard_engine st" "current_workflow st = Some w"
  shows "fst (process_task n inputs (i, task) st) = None
       \<and> map_option progress (current_workflow (snd (process_task n inputs (i, task) st)))
           = Some (finished_progress (i + 1) n)"
proof (cases "step_number task = 3")
  case True
  from assms(1) show ?thesis unfolding standard_engine_def
  proof (elim disjE conjE)
    assume "validator st = None" "corrector st = None"
    then show ?thesis
      by (simp add: process_task_fallback_step3 [OF True assms(2)] task_progress_finished)
  next
    assume "validator st = Some new_Validator" "corrector st = Some new_Corrector"
    then show ?thesis
      by (simp add: process_task_bound_step3 [OF True assms(2)] task_progress_finished)
  qed
next
  case False
  from assms(1) show ?thesis unfolding standard_engine_def
  proof (elim disjE conjE)
    assume "validator st = None" "corrector st = None"
    then show ?thesis
      by (simp add: process_task_fallback_other [OF False assms(2)] task_progress_finished)
  next
    assume "validator st = Some new_Validator" "corrector st = Some new_Corrector"
    then show ?thesis
      by (simp add: process_task_bound_other [OF False assms(2)] task_progress_finished)
  qed
qed


lemma numeric_name_error:
  "config_error numeric_name_config = Some (no_attribute (PInt 5) ''lower'')"
  by (simp add: config_error_def numeric_name_config_def dict_get_def)

lemma sample_engine_state:
  "standard_engine sample_engine" "current_workflow sample_engine = Some sample_workflow"
  by (simp_all add: sample_engine_def standard_engine_def new_WorkflowEngine_def)

lemma standard_cases:
  assumes "standard_engine eng"
  obtains (fallback) "validator eng = None" "corrector eng = None"
  | (bound) "validator eng = Some new_Validator" "corrector eng = Some new_Corrector"
proof -
  from assms have "validator eng = None \<and> corrector eng = None
      \<or> validator eng = Some new_Validator \<and> corrector eng = Some new_Corrector"
    by (simp only: standard_engine_def)
  then show thesis
  proof (elim disjE conjE)
    assume "validator eng = None" "corrector eng = None"
    then show thesis by (rule fallback)
  next
    assume "validator eng = Some new_Validator" "corrector eng = Some new_Corrector"
    then show thesis by (rule bound)
  qed
qed







text \<open>
  C3. In every run of a standard engine, on any configuration, the progress values
  written are non-decreasing from the initial 0; the value written after the k-th task of
  the run is 0.3 + 0.6 * (k / total); the run reaches progress 1 if and only if its stage
  ends COMPLETED. The loop body itself, at position i of n tasks, returns with progress
  0.3 + 0.6 * ((i + 1) / n). Progress is an exact rational here.
\<close>

theorem progress_monotone_formula:
  assumes "standard_engine eng" and "standard_engine st" and "current_workflow st = Some w"
    and "i < n"
  shows "sorted (0 # progresses (report (execute_workflow render eng cfg)))
       \<and> ((1 \<in> set (progresses (report (execute_workflow render eng cfg)))) = (final_stage (report (execute_workflow render eng cfg)) = Some COMPLETED))
       \<and> ((final_progress (report (execute_workflow render eng cfg)) = Some 1) = (final_stage (report (execute_workflow render eng cfg)) = Some COMPLETED))
       \<and> (\<forall>k. 1 \<le> k \<and> k \<le> length (final_statuses (report (execute_workflow render eng cfg)))
              \<longrightarrow> progresses (report (execute_workflow render eng cfg)) ! (k + 1) = finished_progress k (length (final_statuses (report (execute_workflow render eng cfg)))))
       \<and> fst (process_task n inputs (i, task) st) = None
       \<and> map_option progress (current_workflow (snd (process_task n inputs (i, task) st)))
           = Some (finished_progress (i + 1) n)"
proof -
  have run: "sorted (0 # progresses (report (execute_workflow render eng cfg)))
       \<and> ((1 \<in> set (progresses (report (execute_workflow render eng cfg)))) = (final_stage (report (execute_workflow render eng cfg)) = Some COMPLETED))
       \<and> ((final_progress (report (execute_workflow render eng cfg)) = Some 1) = (final_stage (report (execute_workflow render eng cfg)) = Some COMPLETED))
       \<and> (\<forall>k. 1 \<le> k \<and> k \<le> length (final_statuses (report (execute_workflow render eng cfg)))
              \<longrightarrow> progresses (report (execute_workflow render eng cfg)) ! (k + 1) = finished_progress k (length (final_statuses (report (execute_workflow render eng cfg)))))"
  proof (cases "config_error cfg")
    case (Some e)
    from report_failed [OF Some, of render eng] show ?thesis by auto
  next
    case None
    then have ok: "config_ok cfg" by (simp add: config_error_None)
    from assms(1) show ?thesis
    proof (cases rule: standard_cases)
      case fallback
      note r = report_fallback [OF ok fallback, of render]
      have "progresses (report (execute_workflow render eng cfg)) ! (k + 1) = finished_progress k (length (final_statuses (report (execute_workflow render eng cfg))))"
        if "1 \<le> k \<and> k \<le> length (final_statuses (report (execute_workflow render eng cfg)))" for k
      proof -
        from that have "1 \<le> k" "k \<le> 5" by (simp_all add: r)
        from progress_positions [OF this] show ?thesis by (simp add: r eval_nat_numeral)
      qed
      then show ?thesis by (simp add: r)
    next
      case bound
      note r = report_bound [OF ok bound, of render]
      have "progresses (report (execute_workflow render eng cfg)) ! (k + 1) = finished_progress k (length (final_statuses (report (execute_workflow render eng cfg))))"
        if "1 \<le> k \<and> k \<le> length (final_statuses (report (execute_workflow render eng cfg)))" for k
      proof -
        from that have "1 \<le> k" "k \<le> 5" by (simp_all add: r)
        from progress_positions [OF this] show ?thesis by (simp add: r eval_nat_numeral)
      qed
      then show ?thesis by (simp add: r)
    qed
  qed
  with process_task_progress [OF assms(2,3)] show ?thesis by simp
qed

theorem progress_monotone_formula_witness:
  "standard_engine new_WorkflowEngine \<and> standard_engine sample_engine
   \<and> current_workflow sample_engine = Some sample_workflow \<and> (0 :: nat) < 1
   \<and> sorted (0 # progresses fallback_run)
   \<and> ((1 \<in> set (progresses fallback_run)) = (final_stage fallback_run = Some COMPLETED))
   \<and> map_option progress
        (current_workflow (snd (process_task 1 (PList []) (0, sample_task 1) sample_engine)))
       = Some (finished_progress 1 1)"
  using progress_monotone_formula [where eng = new_WorkflowEngine and st = sample_engine
      and w = sample_workflow and i = 0 and n = 1 and render = no_render and cfg = demo_config
      and inputs = "PList []" and task = "sample_task 1"]
  by (simp add: standard_new sample_engine_state fallback_run_def)

text \<open>
  C4 (as amended). For every configuration that meets the preconditions (a textual name,
  inputs that are a sized collection of descriptors) and every standard engine, the run
  returns the current workflow without raising; its stage is COMPLETED; every task has a
  terminal status. Every stage transition is followed by a log entry before the next
  transition, except one: the return to EXECUTING after the last task, which is followed
  at once by COMPLETED. The log still has at least as many entries as there were stage
  transitions.
\<close>

theorem run_postconditions:
  assumes "config_ok cfg" and "standard_engine eng"
  shows "raised (report (execute_workflow render eng cfg)) = None \<and> returned_current (report (execute_workflow render eng cfg))
       \<and> final_stage (report (execute_workflow render eng cfg)) = Some COMPLETED
       \<and> list_all terminal (final_statuses (report (execute_workflow render eng cfg)))
       \<and> logs_traced (report (execute_workflow render eng cfg))
       \<and> unlogged_stages (report (execute_workflow render eng cfg)) = [(EXECUTING, Some COMPLETED)]
       \<and> length (stages (report (execute_workflow render eng cfg))) \<le> log_count (report (execute_workflow render eng cfg))
       \<and> cover (report (execute_workflow render eng cfg)) \<noteq> None"
  using assms(2)
proof (cases rule: standard_cases)
  case fallback
  show ?thesis by (simp add: report_fallback [OF assms(1) fallback])
next
  case bound
  show ?thesis by (simp add: report_bound [OF assms(1) bound])
qed

theorem run_postconditions_witness:
  "config_ok demo_config \<and> standard_engine new_WorkflowEngine
   \<and> raised fallback_run = None \<and> final_stage fallback_run = Some COMPLETED
   \<and> list_all terminal (final_statuses fallback_run)
   \<and> unlogged_stages fallback_run = [(EXECUTING, Some COMPLETED)]
   \<and> length (stages fallback_run) \<le> log_count fallback_run"
  using run_postconditions [of demo_config new_WorkflowEngine no_render]
  by (simp add: demo_config_ok standard_new fallback_run_def)

text \<open>
  The claim as stated fails: in the sample run, which meets the preconditions and ends
  COMPLETED, the stage write EXECUTING after the last task is followed by the stage write
  COMPLETED with no log entry in between.
\<close>

theorem unlogged_transition_counterexample:
  "config_ok demo_config \<and> raised fallback_run = None \<and> final_stage fallback_run = Some COMPLETED
   \<and> unlogged_stages fallback_run = [(EXECUTING, Some COMPLETED)]
   \<and> unlogged_stages fallback_run \<noteq> []"
  by (simp add: demo_config_ok fallback_run_eq)

text \<open>
  C5 (as amended). An exception raised inside the run (at the name, the inputs or in
  \<open>generate_plan\<close>) sets the stage to FAILED, is logged at error level as
  \<open>Workflow failed: ...\<close>, and is raised again to the caller as it is: the same exception,
  not a wrapper. A run on a configuration that raises nothing returns normally: failed
  validations and their corrections raise nothing, the correction is recorded in the
  returned workflow, no validation failure stays pending, and the log holds the
  self-correction warning.
\<close>

theorem errors_reraised_unwrapped:
  assumes "standard_engine eng"
  shows "(config_error cfg = Some e \<longrightarrow>
            fst (execute_workflow render eng cfg) = Inl e
          \<and> final_stage (report (execute_workflow render eng cfg)) = Some FAILED
          \<and> last_log (report (execute_workflow render eng cfg)) = Some (''error'', msg_failed (str_exn e))
          \<and> alerts (report (execute_workflow render eng cfg)) = [(''error'', msg_failed (str_exn e))])
       \<and> (config_error cfg = None \<longrightarrow>
            raised (report (execute_workflow render eng cfg)) = None \<and> returned_current (report (execute_workflow render eng cfg)) \<and> final_stage (report (execute_workflow render eng cfg)) = Some COMPLETED
          \<and> final_strategy (report (execute_workflow render eng cfg)) \<noteq> None \<and> \<not> failure_pending (report (execute_workflow render eng cfg))
          \<and> (''warning'', msg_initiating) \<in> set (alerts (report (execute_workflow render eng cfg))))"
proof (intro conjI impI)
  assume err: "config_error cfg = Some e"
  note r = report_failed [OF err, of render eng]
  from r show "fst (execute_workflow render eng cfg) = Inl e" by simp
  from r show "final_stage (report (execute_workflow render eng cfg)) = Some FAILED" by simp
  from r show "last_log (report (execute_workflow render eng cfg)) = Some (''error'', msg_failed (str_exn e))" by simp
  from r show "alerts (report (execute_workflow render eng cfg)) = [(''error'', msg_failed (str_exn e))]" by simp
next
  assume "config_error cfg = None"
  then have ok: "config_ok cfg" by (simp add: config_error_None)
  from assms have "raised (report (execute_workflow render eng cfg)) = None \<and> returned_current (report (execute_workflow render eng cfg)) \<and> final_stage (report (execute_workflow render eng cfg)) = Some COMPLETED
          \<and> final_strategy (report (execute_workflow render eng cfg)) \<noteq> None \<and> \<not> failure_pending (report (execute_workflow render eng cfg))
          \<and> (''warning'', msg_initiating) \<in> set (alerts (report (execute_workflow render eng cfg)))"
  proof (cases rule: standard_cases)
    case fallback
    show ?thesis by (simp add: report_fallback [OF ok fallback])
  next
    case bound
    show ?thesis by (simp add: report_bound [OF ok bound])
  qed
  then show "raised (report (execute_workflow render eng cfg)) = None" "returned_current (report (execute_workflow render eng cfg))" "final_stage (report (execute_workflow render eng cfg)) = Some COMPLETED"
    "final_strategy (report (execute_workflow render eng cfg)) \<noteq> None" "\<not> failure_pending (report (execute_workflow render eng cfg))"
    "(''warning'', msg_initiating) \<in> set (alerts (report (execute_workflow render eng cfg)))"
    by simp_all
qed

theorem errors_reraised_unwrapped_witness:
  "standard_engine new_WorkflowEngine
   \<and> config_error numeric_name_config = Some (no_attribute (PInt 5) ''lower'')
   \<and> fst (execute_workflow no_render new_WorkflowEngine numeric_name_config)
       = Inl (no_attribute (PInt 5) ''lower'')
   \<and> config_error demo_config = None
   \<and> raised fallback_run = None \<and> final_strategy fallback_run \<noteq> None"
  using errors_reraised_unwrapped [of new_WorkflowEngine numeric_name_config
      "no_attribute (PInt 5) ''lower''" no_render]
    errors_reraised_unwrapped [of new_WorkflowEngine demo_config
      "no_attribute (PInt 5) ''lower''" no_render]
  by (simp add: standard_new numeric_name_error demo_config_error fallback_run_def)

theorem original_exception_counterexample:
  "fst (execute_workflow no_render new_WorkflowEngine numeric_name_config)
     = Inl (AttributeError (CHR 0x27 # ''int'' @ CHR 0x27 # '' object has no attribute ''
                            @ CHR 0x27 # ''lower'' @ [CHR 0x27]))"
  using report_failed [OF numeric_name_error, of no_render new_WorkflowEngine]
  by (simp add: no_attribute_def)

text \<open>
  C6. In every run of a standard engine, on any configuration, the statuses written to
  each task, after its initial PENDING, only move forward in the status machine: they are
  RUNNING then COMPLETED, RUNNING then FAILED, or RUNNING, FAILED, CORRECTED. No task goes
  from FAILED back to RUNNING, the last status written is the task's final status, and it
  is terminal.
\<close>

theorem status_forward_only:
  assumes "standard_engine eng"
  shows "list_all (\<lambda>h. forward_only (PENDING # h) \<and> \<not> retried h \<and> terminal (last h))
           (status_histories (report (execute_workflow render eng cfg)))
       \<and> list_all (\<lambda>h. h = [RUNNING, TASK_COMPLETED] \<or> h = [RUNNING, TASK_FAILED]
                        \<or> h = [RUNNING, TASK_FAILED, CORRECTED])
           (status_histories (report (execute_workflow render eng cfg)))
       \<and> final_statuses (report (execute_workflow render eng cfg)) = map last (status_histories (report (execute_workflow render eng cfg)))"
proof (cases "config_error cfg")
  case (Some e)
  from report_failed [OF Some, of render eng] show ?thesis by simp
next
  case None
  then have ok: "config_ok cfg" by (simp add: config_error_None)
  from assms show ?thesis
  proof (cases rule: standard_cases)
    case fallback
    show ?thesis by (simp add: report_fallback [OF ok fallback])
  next
    case bound
    show ?thesis by (simp add: report_bound [OF ok bound])
  qed
qed

theorem status_forward_only_witness:
  "standard_engine new_WorkflowEngine
   \<and> status_histories fallback_run \<noteq> []
   \<and> list_all (\<lambda>h. forward_only (PENDING # h) \<and> \<not> retried h \<and> terminal (last h))
        (status_histories fallback_run)
   \<and> final_statuses fallback_run = map last (status_histories fallback_run)"
  using status_forward_only [of new_WorkflowEngine no_render demo_config]
  by (simp add: standard_new fallback_run_def fallback_run_eq [unfolded fallback_run_def])

section \<open>Strategy selection\<close>

lemma starts_with_prefix: "starts_with p s \<longleftrightarrow> prefix p s"
  by (induction p s rule: starts_with.induct) simp_all

lemma str_in_sublist: "str_in p s \<longleftrightarrow> sublist p s"
  by (induction s) (simp_all add: sublist_Cons_right starts_with_prefix)

lemma sublist_skip_head:
  assumes "c \<notin> set p" "p \<noteq> []"
  shows "sublist p (c # ys) \<longleftrightarrow> sublist p ys"
  using assms by (cases p) (auto simp: sublist_Cons_right)

lemma sublist_skip:
  assumes "c \<notin> set p" "p \<noteq> []"
  shows "sublist p (xs @ c # ys) \<longleftrightarrow> sublist p xs \<or> sublist p ys"
proof -
  have "sublist p xs" if "p = p1 @ p2" "suffix p1 xs" "prefix p2 (c # ys)" for p1 p2
  proof -
    from that(1,3) assms(1) have "p2 = []" by (auto simp: prefix_Cons)
    with that(1,2) show ?thesis by (simp add: suffix_imp_sublist)
  qed
  then show ?thesis
    using sublist_append [of p xs "c # ys"] sublist_skip_head [OF assms, of ys] by blast
qed

lemma py_lower_append: "py_lower (xs @ ys) = py_lower xs @ py_lower ys"
  by (simp add: py_lower_def)

lemma py_lower_Cons: "py_lower (c # cs) = py_lower_char c # py_lower cs"
  by (simp add: py_lower_def)

lemma py_lower_Nil: "py_lower [] = []"
  by (simp add: py_lower_def)

lemma py_lower_punct:
  "py_lower_char (CHR 0x27) = CHR 0x27" "py_lower_char (CHR 0x22) = CHR 0x22"
  "py_lower_char (CHR 0x5C) = CHR 0x5C" "py_lower_char (CHR '','') = CHR '',''"
  "py_lower_char (CHR ''['') = CHR ''[''" "py_lower_char (CHR '']'') = CHR '']''"
  "py_lower_char (CHR '' '') = CHR '' ''"
  by code_simp+

lemma not_printable_controls:
  "\<not> py_printable (CHR 0x0A)" "\<not> py_printable (CHR 0x0D)" "\<not> py_printable (CHR 0x09)"
  by code_simp+

lemma plain_patternD:
  assumes "plain_pattern p"
  shows "p \<noteq> []" "\<not> sublist p '' ''" "CHR 0x27 \<notin> set p" "CHR 0x22 \<notin> set p" "CHR 0x5C \<notin> set p"
    "CHR '','' \<notin> set p" "CHR ''['' \<notin> set p" "CHR '']'' \<notin> set p"
proof -
  from assms show "p \<noteq> []" by (simp add: plain_pattern_def)
  from assms have "p \<noteq> []" "p \<noteq> '' ''" by (simp_all add: plain_pattern_def)
  then show "\<not> sublist p '' ''" by (cases p) (auto simp: sublist_Cons_right prefix_Cons)
  from assms show "CHR 0x27 \<notin> set p" "CHR 0x22 \<notin> set p" "CHR 0x5C \<notin> set p"
    "CHR '','' \<notin> set p" "CHR ''['' \<notin> set p" "CHR '']'' \<notin> set p"
    by (auto simp: plain_pattern_def list_all_iff)
qed

lemma repr_body_hit:
  assumes "plain_pattern p" "q = CHR 0x27 \<or> q = CHR 0x22" "list_all py_printable s"
  shows "sublist p (pre @ py_lower (concat (map (repr_char q) s))) \<longleftrightarrow> sublist p (pre @ py_lower s)"
  using assms(3)
proof (induction s arbitrary: pre)
  case Nil
  then show ?case by simp
next
  case (Cons c s)
  note pat = plain_patternD [OF assms(1)]
  from Cons.prems have pc: "py_printable c" and ps: "list_all py_printable s" by simp_all
  from assms(2) pat have qp: "q \<notin> set p" and ql: "py_lower_char q = q"
    by (auto simp: py_lower_punct)
  have tail: "sublist p (py_lower (concat (map (repr_char q) s))) \<longleftrightarrow> sublist p (py_lower s)"
    using Cons.IH [OF ps, of "[]"] by simp
  consider (bs) "c = CHR 0x5C" | (quote) "c \<noteq> CHR 0x5C" "c = q" | (plain) "c \<noteq> CHR 0x5C" "c \<noteq> q"
    by blast
  then show ?case
  proof cases
    case bs
    then have "repr_char q c = [CHR 0x5C, CHR 0x5C]" by (simp add: repr_char_def)
    with bs show ?thesis
      using tail pat(1,5)
      by (simp add: py_lower_Cons py_lower_append py_lower_punct sublist_skip sublist_skip_head)
  next
    case quote
    then have "repr_char q c = [CHR 0x5C, q]" by (simp add: repr_char_def)
    with quote show ?thesis
      using tail pat(1,5) qp ql
      by (simp add: py_lower_Cons py_lower_append py_lower_punct sublist_skip sublist_skip_head)
  next
    case plain
    with pc have "repr_char q c = [c]"
      by (auto simp: repr_char_def not_printable_controls)
    then show ?thesis
      using Cons.IH [OF ps, of "pre @ [py_lower_char c]"]
      by (simp add: py_lower_Cons py_lower_append)
  qed
qed


lemma repr_str_hit:
  assumes "plain_pattern p" "list_all py_printable s"
  shows "sublist p (py_lower (repr_str s)) \<longleftrightarrow> sublist p (py_lower s)"
proof -
  note pat = plain_patternD [OF assms(1)]
  define q where "q = (if CHR 0x27 \<in> set s \<and> CHR 0x22 \<notin> set s then CHR 0x22 else CHR 0x27)"
  have q: "q = CHR 0x27 \<or> q = CHR 0x22" by (simp add: q_def)
  with pat have qp: "q \<notin> set p" and ql: "py_lower_char q = q" by (auto simp: py_lower_punct)
  have "repr_str s = q # concat (map (repr_char q) s) @ [q]"
    by (simp add: repr_str_def q_def Let_def)
  then show ?thesis
    using repr_body_hit [OF assms(1) q assms(2), of "[]"] qp ql pat(1)
    by (simp add: py_lower_Cons py_lower_append py_lower_Nil sublist_skip sublist_skip_head)
qed

lemma repr_str_head:
  "\<exists>q rest. repr_str s = q # rest \<and> (q = CHR 0x27 \<or> q = CHR 0x22)"
  by (simp add: repr_str_def Let_def)

lemma join_head:
  "\<exists>q rest. join '', '' (map repr_str (y # zs)) = q # rest \<and> (q = CHR 0x27 \<or> q = CHR 0x22)"
proof (cases zs)
  case Nil
  then show ?thesis using repr_str_head [of y] by simp
next
  case (Cons z zs')
  then show ?thesis using repr_str_head [of y] by auto
qed

lemma join_hit:
  assumes "plain_pattern p" "list_all (list_all py_printable) xs"
  shows "sublist p (py_lower (join '', '' (map repr_str xs)))
         \<longleftrightarrow> list_ex (\<lambda>s. sublist p (py_lower s)) xs"
  using assms(2)
proof (induction xs rule: induct_list012)
  case 1
  then show ?case using plain_patternD(1) [OF assms(1)] by (simp add: py_lower_Nil)
next
  case (2 x)
  then show ?case by (simp add: repr_str_hit [OF assms(1)])
next
  case (3 x y zs)
  note pat = plain_patternD [OF assms(1)]
  from 3 have px: "list_all py_printable x" and rest: "list_all (list_all py_printable) (y # zs)"
    by simp_all
  obtain q r where j: "join '', '' (map repr_str (y # zs)) = q # r" and q: "q = CHR 0x27 \<or> q = CHR 0x22"
    using join_head by blast
  from q pat have qp: "q \<notin> set p" and ql: "py_lower_char q = q" by (auto simp: py_lower_punct)
  have "sublist p ([CHR '' ''] @ q # py_lower r) \<longleftrightarrow> sublist p (py_lower r)"
    using pat(1,2) qp by (simp only: sublist_skip [OF qp pat(1)]) simp
  then have sp: "sublist p (CHR '' '' # py_lower (join '', '' (map repr_str (y # zs))))
      \<longleftrightarrow> sublist p (py_lower (join '', '' (map repr_str (y # zs))))"
    using qp ql pat(1) unfolding j by (simp add: py_lower_Cons sublist_skip_head)
  have "join '', '' (map repr_str (x # y # zs))
        = repr_str x @ CHR '','' # CHR '' '' # join '', '' (map repr_str (y # zs))"
    by simp
  then have "sublist p (py_lower (join '', '' (map repr_str (x # y # zs))))
      \<longleftrightarrow> sublist p (py_lower (repr_str x))
          \<or> sublist p (py_lower (join '', '' (map repr_str (y # zs))))"
    using sp pat(1,6)
    by (simp only: py_lower_append py_lower_Cons py_lower_punct sublist_skip [OF pat(6) pat(1)])
  then show ?case
    using "3.IH"(2) [OF rest] repr_str_hit [OF assms(1) px] by simp
qed

lemma str_list_hit:
  assumes "plain_pattern p" "list_all (list_all py_printable) xs"
  shows "str_in p (py_lower (str_list xs)) \<longleftrightarrow> list_ex (\<lambda>s. str_in p (py_lower s)) xs"
proof -
  note pat = plain_patternD [OF assms(1)]
  have "str_list xs = CHR ''['' # join '', '' (map repr_str xs) @ [CHR '']'']"
    by (simp add: str_list_def)
  then have "sublist p (py_lower (str_list xs))
      \<longleftrightarrow> sublist p (py_lower (join '', '' (map repr_str xs)))"
    using pat(1,7,8)
    by (simp add: py_lower_Cons py_lower_append py_lower_Nil py_lower_punct sublist_skip
        sublist_skip_head)
  then show ?thesis by (simp add: str_in_sublist join_hit [OF assms])
qed

lemma plain_patterns: "plain_pattern ''edge case''" "plain_pattern ''timeout''"
  by (simp_all add: plain_pattern_def)

lemma mixed_validation_printable: "printable_issues (issues mixed_validation)"
  by code_simp

lemma mixed_validation_spec:
  "spec_select_strategy (issues mixed_validation) = ''inject_defensive_code''"
  by code_simp

text \<open>
  C7 (as amended). The selector searches the lower-cased \<open>str()\<close> rendering of the issue
  list. For issues made of printable characters this is first-match-wins, case-insensitive
  substring matching on the issues themselves: some issue containing \<open>edge case\<close> yields
  \<open>inject_defensive_code\<close>, otherwise some issue containing \<open>timeout\<close> yields
  \<open>retry_with_modified_input\<close>, and anything else yields \<open>use_alternative_method\<close>.
\<close>

theorem select_strategy_first_match:
  assumes "printable_issues (issues validation)"
  shows "select_strategy self task validation = spec_select_strategy (issues validation)"
proof -
  from assms have p: "list_all (list_all py_printable) (issues validation)"
    by (simp add: printable_issues_def)
  show ?thesis
    unfolding select_strategy_def spec_select_strategy_def
    by (simp only: str_list_hit [OF plain_patterns(1) p] str_list_hit [OF plain_patterns(2) p])
qed

theorem select_strategy_first_match_witness:
  "printable_issues (issues mixed_validation)
   \<and> select_strategy CorrectionStrategies (sample_task 3) mixed_validation = ''inject_defensive_code''"
  using select_strategy_first_match [of mixed_validation CorrectionStrategies "sample_task 3"]
  by (simp add: mixed_validation_printable mixed_validation_spec)

theorem escaped_tab_counterexample:
  "select_strategy CorrectionStrategies (sample_task 3) tab_validation = ''retry_with_modified_input''
   \<and> spec_select_strategy (issues tab_validation) = ''use_alternative_method''"
  by code_simp

end
